theory Spec2Isabelle
  imports Complex_Main
begin

section \<open>A hybrid BERT + GloVe text classifier: embedding of the notebook\<close>

text \<open>
  The notebook \<^verbatim>\<open>bert_nd_grove_2.ipynb\<close> is a Python script in cells. Its functions are
  embedded as HOL functions of the same names. Python exceptions are values of the type
  \<open>error\<close>, and a function that may raise returns \<open>error + 'a\<close>. Tensors and numpy arrays
  are lists (a matrix is a list of rows); their float entries are modelled by \<open>real\<close>, so
  rounding is not part of the model. Python's \<^verbatim>\<open>str\<close> is modelled by \<open>string\<close>, whose
  characters stand for the code points below 256.
\<close>

datatype error = IndexError | ValueError | KeyError | RuntimeError | TypeError

subsection \<open>Whitespace splitting: \<^verbatim>\<open>str.split()\<close> and \<^verbatim>\<open>str.strip()\<close>\<close>

text \<open>The code points below 256 on which \<^verbatim>\<open>str.isspace\<close> holds.\<close>

definition isspace :: "char \<Rightarrow> bool" where
  "isspace c = (c \<in> set [CHR 0x09, CHR 0x0A, CHR 0x0B, CHR 0x0C, CHR 0x0D,
                          CHR 0x1C, CHR 0x1D, CHR 0x1E, CHR 0x1F, CHR 0x20,
                          CHR 0x85, CHR 0xA0])"

text \<open>
  \<^verbatim>\<open>s.split()\<close> with no separator: runs of whitespace separate the tokens, and no token
  is empty. \<open>cur\<close> is the token being read.
\<close>

fun split_from :: "string \<Rightarrow> string \<Rightarrow> string list" where
  "split_from cur [] = (if cur = [] then [] else [cur])"
| "split_from cur (c # cs) =
     (if isspace c then (if cur = [] then split_from [] cs else cur # split_from [] cs)
      else split_from (cur @ [c]) cs)"

definition str_split :: "string \<Rightarrow> string list" where
  "str_split s = split_from [] s"

definition str_strip :: "string \<Rightarrow> string" where
  "str_strip s = rev (dropWhile isspace (rev (dropWhile isspace s)))"

subsection \<open>GloVe loading\<close>

type_synonym vector = "real list"
type_synonym embeddings = "string \<rightharpoonup> vector"

text \<open>
  \<^verbatim>\<open>np.array(values[1:], dtype=np.float32)\<close> converts every field to a float and raises
  ValueError at a field that is not a number. The conversion of one field is numpy's; it
  is the parameter \<open>to_float\<close>.
\<close>

fun np_array :: "(string \<Rightarrow> real option) \<Rightarrow> string list \<Rightarrow> error + vector" where
  "np_array to_float [] = Inr []"
| "np_array to_float (s # ss) =
     (case to_float s of
        None \<Rightarrow> Inl ValueError
      | Some x \<Rightarrow> (case np_array to_float ss of Inl e \<Rightarrow> Inl e | Inr xs \<Rightarrow> Inr (x # xs)))"

text \<open>
  The loop over the lines of the file. \<^verbatim>\<open>values[0]\<close> raises IndexError on a line with
  no field; a later line for the same word overwrites the earlier entry.
\<close>

fun load_lines ::
  "(string \<Rightarrow> real option) \<Rightarrow> embeddings \<Rightarrow> string list \<Rightarrow> error + embeddings" where
  "load_lines to_float embeddings [] = Inr embeddings"
| "load_lines to_float embeddings (line # rest) =
     (case str_split (str_strip line) of
        [] \<Rightarrow> Inl IndexError
      | word # vals \<Rightarrow>
          (case np_array to_float vals of
             Inl e \<Rightarrow> Inl e
           | Inr vec \<Rightarrow> load_lines to_float (embeddings(word \<mapsto> vec)) rest))"

text \<open>The file at \<^verbatim>\<open>glove_path\<close> is given by its lines.\<close>

definition load_glove_embeddings ::
  "(string \<Rightarrow> real option) \<Rightarrow> string list \<Rightarrow> error + embeddings" where
  "load_glove_embeddings to_float file_lines = load_lines to_float Map.empty file_lines"

text \<open>
  The lines the loop accepts: a token, then any number of fields that all convert to
  floats.
\<close>

definition accepted_line :: "(string \<Rightarrow> real option) \<Rightarrow> string \<Rightarrow> bool" where
  "accepted_line to_float line =
     (str_split line \<noteq> [] \<and> list_all (\<lambda>f. to_float f \<noteq> None) (tl (str_split line)))"

text \<open>
  A concrete \<open>to_float\<close> for evaluating examples: plain decimal literals (an optional
  minus sign, digits, an optional fraction), on which the conversion is exact.
\<close>

definition digit_of :: "char \<Rightarrow> nat option" where
  "digit_of c = map_of [(CHR ''0'', 0), (CHR ''1'', 1), (CHR ''2'', 2), (CHR ''3'', 3),
                        (CHR ''4'', 4), (CHR ''5'', 5), (CHR ''6'', 6), (CHR ''7'', 7),
                        (CHR ''8'', 8), (CHR ''9'', 9)] c"

fun digits_value :: "nat \<Rightarrow> string \<Rightarrow> nat option" where
  "digits_value acc [] = Some acc"
| "digits_value acc (c # cs) =
     (case digit_of c of None \<Rightarrow> None | Some d \<Rightarrow> digits_value (10 * acc + d) cs)"

definition unsigned_decimal :: "string \<Rightarrow> real option" where
  "unsigned_decimal s =
     (let ip = takeWhile (\<lambda>c. c \<noteq> CHR ''.'') s;
          fp = drop 1 (dropWhile (\<lambda>c. c \<noteq> CHR ''.'') s)
      in if ip = [] then None
         else (case (digits_value 0 ip, digits_value 0 fp) of
                 (Some a, Some b) \<Rightarrow> Some (real a + real b / 10 ^ length fp)
               | _ \<Rightarrow> None))"

fun decimal_float :: "string \<Rightarrow> real option" where
  "decimal_float [] = None"
| "decimal_float (c # cs) =
     (if c = CHR ''-'' then map_option uminus (unsigned_decimal cs)
      else unsigned_decimal (c # cs))"

subsection \<open>Averaged GloVe vector of a text\<close>

definition np_zeros :: "nat \<Rightarrow> vector" where
  "np_zeros n = replicate n 0"

definition vec_add :: "vector \<Rightarrow> vector \<Rightarrow> vector" where
  "vec_add u v = map2 (+) u v"

text \<open>
  \<^verbatim>\<open>np.mean(vectors, axis=0)\<close> on a list of one-dimensional arrays: the arrays are
  stacked, which raises ValueError when their lengths differ, summed along the first axis
  and divided by their number. The source calls it on a non-empty list only; the result
  on the empty list is not a number and is the failure ValueError in this model.
\<close>

definition np_mean_axis0 :: "vector list \<Rightarrow> error + vector" where
  "np_mean_axis0 vectors =
     (case vectors of
        [] \<Rightarrow> Inl ValueError
      | v # rest \<Rightarrow>
          if list_all (\<lambda>u. length u = length v) rest
          then Inr (map (\<lambda>s. s / real (length vectors)) (foldl vec_add v rest))
          else Inl ValueError)"

text \<open>The loop \<^verbatim>\<open>for token in tokens: if token in embeddings_dict: vectors.append(...)\<close>.\<close>

fun collect_vectors :: "embeddings \<Rightarrow> vector list \<Rightarrow> string list \<Rightarrow> vector list" where
  "collect_vectors embeddings_dict vectors [] = vectors"
| "collect_vectors embeddings_dict vectors (token # tokens) =
     (case embeddings_dict token of
        None \<Rightarrow> collect_vectors embeddings_dict vectors tokens
      | Some v \<Rightarrow> collect_vectors embeddings_dict (vectors @ [v]) tokens)"

definition text_to_avg_glove :: "string \<Rightarrow> embeddings \<Rightarrow> nat \<Rightarrow> error + vector" where
  "text_to_avg_glove text embeddings_dict embed_dim =
     (let tokens = str_split text;
          vectors = collect_vectors embeddings_dict [] tokens
      in if length vectors = 0 then Inr (np_zeros embed_dim) else np_mean_axis0 vectors)"

subsection \<open>The dataset: \<^verbatim>\<open>BertGloveDataset\<close>\<close>

text \<open>
  The subword tokenizer is a library object. Its splitting of a text into subword ids is
  the field \<open>subword_ids\<close>; \<open>cls_id\<close>, \<open>sep_id\<close> and \<open>pad_id\<close> are its special tokens.
\<close>

record tokenizer =
  subword_ids :: "string \<Rightarrow> nat list"
  cls_id :: nat
  sep_id :: nat
  pad_id :: nat

record batch_encoding =
  enc_input_ids :: "nat list list"
  enc_attention_mask :: "nat list list"

text \<open>
  Modelled from the spec: the subword tokenizer is a library outside the sources. Section
  4.3 of the spec gives its contract under the options the source passes,
  \<^verbatim>\<open>padding="max_length"\<close>, \<^verbatim>\<open>truncation=True\<close> and \<^verbatim>\<open>max_length=max_length\<close>: truncate to
  \<open>max_length\<close> tokens, pad to exactly \<open>max_length\<close> with the padding id, mask 1 on the
  real tokens and 0 on the padding. The library puts the two special tokens around the
  subword ids and cuts the subword ids so that the three parts fit. When \<open>max_length\<close>
  has no room for the two special tokens, below 2, the library leaves the row as it is,
  neither cut nor padded: a text of one subword gives a row of length 3.
\<close>

definition encode_text :: "tokenizer \<Rightarrow> nat \<Rightarrow> string \<Rightarrow> nat list \<times> nat list" where
  "encode_text tk max_length text =
     (let body = (if max_length < 2 then subword_ids tk text
                  else take (max_length - 2) (subword_ids tk text));
          ids = cls_id tk # body @ [sep_id tk];
          n = length ids
      in (ids @ replicate (max_length - n) (pad_id tk),
          replicate n 1 @ replicate (max_length - n) 0))"

text \<open>
  The call \<^verbatim>\<open>self.tokenizer(list(self.texts), ..., return_tensors="pt")\<close>. The library
  raises IndexError on an empty list of texts, and ValueError when the rows cannot be
  stacked to one tensor because their lengths differ.
\<close>

definition tokenizer_call :: "tokenizer \<Rightarrow> string list \<Rightarrow> nat \<Rightarrow> error + batch_encoding" where
  "tokenizer_call tk texts max_length =
     (case map (encode_text tk max_length) texts of
        [] \<Rightarrow> Inl IndexError
      | row # rows \<Rightarrow>
          if list_all (\<lambda>r. length (fst r) = length (fst row)) rows
          then Inr \<lparr>enc_input_ids = map fst (row # rows),
                    enc_attention_mask = map snd (row # rows)\<rparr>
          else Inl ValueError)"

text \<open>
  A stand-in tokenizer for evaluating examples: the subwords are the whitespace-separated
  words, the id of a word is its length, and the special ids are those of
  \<^verbatim>\<open>bert-base-uncased\<close>.
\<close>

definition word_length_tokenizer :: tokenizer where
  "word_length_tokenizer =
     \<lparr>subword_ids = (\<lambda>s. map length (str_split s)), cls_id = 101, sep_id = 102, pad_id = 0\<rparr>"

record dataset =
  ds_texts :: "string list"
  ds_labels :: "nat list option"
  ds_glove_dim :: nat
  ds_glove_embs :: "vector list"
  ds_encodings :: batch_encoding

text \<open>The list comprehension over the texts stops at the first text that raises.\<close>

fun glove_embs_of :: "embeddings \<Rightarrow> nat \<Rightarrow> string list \<Rightarrow> error + vector list" where
  "glove_embs_of glove_dict glove_dim [] = Inr []"
| "glove_embs_of glove_dict glove_dim (t # ts) =
     (case text_to_avg_glove t glove_dict glove_dim of
        Inl e \<Rightarrow> Inl e
      | Inr v \<Rightarrow> (case glove_embs_of glove_dict glove_dim ts of
                   Inl e \<Rightarrow> Inl e
                 | Inr vs \<Rightarrow> Inr (v # vs)))"

definition BertGloveDataset ::
  "string list \<Rightarrow> nat list option \<Rightarrow> embeddings \<Rightarrow> tokenizer \<Rightarrow> nat \<Rightarrow> nat \<Rightarrow> error + dataset"
where
  "BertGloveDataset texts labels glove_dict tk max_length glove_dim =
     (case glove_embs_of glove_dict glove_dim texts of
        Inl e \<Rightarrow> Inl e
      | Inr embs \<Rightarrow>
          (case tokenizer_call tk texts max_length of
             Inl e \<Rightarrow> Inl e
           | Inr enc \<Rightarrow>
               Inr \<lparr>ds_texts = texts, ds_labels = labels, ds_glove_dim = glove_dim,
                    ds_glove_embs = embs, ds_encodings = enc\<rparr>))"

definition len :: "dataset \<Rightarrow> nat" where
  "len ds = length (ds_texts ds)"

text \<open>
  The dictionary built by \<^verbatim>\<open>__getitem__\<close>: the key \<^verbatim>\<open>"labels"\<close> is present exactly when
  the field \<open>labels\<close> is not \<open>None\<close>.
\<close>

record item =
  input_ids :: "nat list"
  attention_mask :: "nat list"
  glove_emb :: vector
  labels :: "nat option"

text \<open>Indexing a list or a tensor row; an index past the end raises IndexError.\<close>

definition index :: "'a list \<Rightarrow> nat \<Rightarrow> error + 'a" where
  "index xs i = (if i < length xs then Inr (xs ! i) else Inl IndexError)"

definition getitem :: "dataset \<Rightarrow> nat \<Rightarrow> error + item" where
  "getitem ds idx =
     (case index (enc_input_ids (ds_encodings ds)) idx of
        Inl e \<Rightarrow> Inl e
      | Inr ids \<Rightarrow>
     (case index (enc_attention_mask (ds_encodings ds)) idx of
        Inl e \<Rightarrow> Inl e
      | Inr amask \<Rightarrow>
     (case index (ds_glove_embs ds) idx of
        Inl e \<Rightarrow> Inl e
      | Inr g \<Rightarrow>
     (case ds_labels ds of
        None \<Rightarrow> Inr \<lparr>input_ids = ids, attention_mask = amask, glove_emb = g, labels = None\<rparr>
      | Some ls \<Rightarrow>
          (case index ls idx of
             Inl e \<Rightarrow> Inl e
           | Inr l \<Rightarrow>
               Inr \<lparr>input_ids = ids, attention_mask = amask, glove_emb = g,
                    labels = Some l\<rparr>)))))"

subsection \<open>Batch collation: \<^verbatim>\<open>collate_fn\<close>\<close>

text \<open>
  \<^verbatim>\<open>torch.stack\<close> of a list of one-dimensional tensors: RuntimeError on the empty list and
  on tensors of different sizes.
\<close>

definition torch_stack :: "'a list list \<Rightarrow> error + 'a list list" where
  "torch_stack ts =
     (case ts of
        [] \<Rightarrow> Inl RuntimeError
      | t # rest \<Rightarrow>
          if list_all (\<lambda>u. length u = length t) rest then Inr ts else Inl RuntimeError)"

text \<open>Two examples whose tensors have the same sizes, as the examples of one dataset do.\<close>

definition same_shape :: "item \<Rightarrow> item \<Rightarrow> bool" where
  "same_shape a b =
     (length (input_ids b) = length (input_ids a) \<and>
      length (attention_mask b) = length (attention_mask a) \<and>
      length (glove_emb b) = length (glove_emb a))"

text \<open>
  \<^verbatim>\<open>[x["labels"] for x in batch]\<close> raises KeyError at the first example without the key.
  The labels are zero-dimensional tensors, which always stack.
\<close>

fun labels_of :: "item list \<Rightarrow> error + nat list" where
  "labels_of [] = Inr []"
| "labels_of (x # xs) =
     (case labels x of
        None \<Rightarrow> Inl KeyError
      | Some l \<Rightarrow> (case labels_of xs of Inl e \<Rightarrow> Inl e | Inr ls \<Rightarrow> Inr (l # ls)))"

record batch =
  batch_input_ids :: "nat list list"
  batch_attention_mask :: "nat list list"
  batch_glove_emb :: "vector list"
  batch_labels :: "nat list option"

definition collate_fn :: "item list \<Rightarrow> error + batch" where
  "collate_fn items =
     (case torch_stack (map input_ids items) of
        Inl e \<Rightarrow> Inl e
      | Inr ids \<Rightarrow>
     (case torch_stack (map attention_mask items) of
        Inl e \<Rightarrow> Inl e
      | Inr amask \<Rightarrow>
     (case torch_stack (map glove_emb items) of
        Inl e \<Rightarrow> Inl e
      | Inr g \<Rightarrow>
     (case items of
        [] \<Rightarrow> Inl IndexError
      | first # _ \<Rightarrow>
          (case labels first of
             None \<Rightarrow>
               Inr \<lparr>batch_input_ids = ids, batch_attention_mask = amask,
                    batch_glove_emb = g, batch_labels = None\<rparr>
           | Some _ \<Rightarrow>
               (case labels_of items of
                  Inl e \<Rightarrow> Inl e
                | Inr ls \<Rightarrow>
                    Inr \<lparr>batch_input_ids = ids, batch_attention_mask = amask,
                         batch_glove_emb = g, batch_labels = Some ls\<rparr>))))))"

subsection \<open>The model: \<^verbatim>\<open>BertWithGlove\<close>\<close>

text \<open>
  \<^verbatim>\<open>nn.Linear(n_in, n_out)\<close> holds a weight matrix of \<open>n_out\<close> rows and \<open>n_in\<close> columns
  and a bias of \<open>n_out\<close> entries. Their values are fresh at construction and change in
  training; they are given by the functions \<open>w\<close> and \<open>b\<close> of the indices.
\<close>

record linear =
  in_features :: nat
  out_features :: nat
  weight :: "real list list"
  bias :: "real list"

definition nn_Linear :: "nat \<Rightarrow> nat \<Rightarrow> (nat \<Rightarrow> nat \<Rightarrow> real) \<Rightarrow> (nat \<Rightarrow> real) \<Rightarrow> linear" where
  "nn_Linear n_in n_out w b =
     \<lparr>in_features = n_in, out_features = n_out,
      weight = map (\<lambda>i. map (\<lambda>j. w i j) [0..<n_in]) [0..<n_out],
      bias = map b [0..<n_out]\<rparr>"

definition dot :: "real list \<Rightarrow> real list \<Rightarrow> real" where
  "dot u v = sum_list (map2 (*) u v)"

text \<open>Applying the layer to a batch raises RuntimeError when a row has not \<open>in_features\<close> entries.\<close>

definition linear_forward :: "linear \<Rightarrow> real list list \<Rightarrow> error + real list list" where
  "linear_forward l x =
     (if list_all (\<lambda>r. length r = in_features l) x
      then Inr (map (\<lambda>r. map2 (\<lambda>wrow b. dot wrow r + b) (weight l) (bias l)) x)
      else Inl RuntimeError)"

record bert_config =
  hidden_size :: nat
  num_labels :: nat

text \<open>
  The encoder \<open>bert\<close> is a library model: it maps the token ids and the attention mask
  of a batch to the pooled output, one row per example. \<open>training\<close> is the mode of the
  module, and \<open>dropout_mask\<close> the scaled keep-mask that dropout draws in training mode.
\<close>

record model =
  bert :: "nat list list \<Rightarrow> nat list list \<Rightarrow> real list list"
  training :: bool
  dropout_mask :: "nat \<Rightarrow> nat \<Rightarrow> real"
  classifier :: linear

definition BertWithGlove ::
  "bert_config \<Rightarrow> nat \<Rightarrow> (nat list list \<Rightarrow> nat list list \<Rightarrow> real list list) \<Rightarrow> bool \<Rightarrow>
   (nat \<Rightarrow> nat \<Rightarrow> real) \<Rightarrow> (nat \<Rightarrow> nat \<Rightarrow> real) \<Rightarrow> (nat \<Rightarrow> real) \<Rightarrow> model" where
  "BertWithGlove config glove_dim encoder mode dmask w b =
     (let combined_dim = hidden_size config + glove_dim
      in \<lparr>bert = encoder, training = mode, dropout_mask = dmask,
          classifier = nn_Linear combined_dim (num_labels config) w b\<rparr>)"

definition nn_Dropout :: "model \<Rightarrow> real list list \<Rightarrow> real list list" where
  "nn_Dropout m x =
     (if training m
      then map (\<lambda>(i, row). map (\<lambda>(j, v). dropout_mask m i j * v) (enumerate 0 row))
               (enumerate 0 x)
      else x)"

definition torch_zeros :: "nat \<Rightarrow> nat \<Rightarrow> real list list" where
  "torch_zeros n d = replicate n (replicate d 0)"

text \<open>\<^verbatim>\<open>torch.cat((a, b), dim=1)\<close> raises RuntimeError when the batch sizes differ.\<close>

definition torch_cat :: "real list list \<Rightarrow> real list list \<Rightarrow> error + real list list" where
  "torch_cat a b = (if length a = length b then Inr (map2 (@) a b) else Inl RuntimeError)"

text \<open>
  \<^verbatim>\<open>nn.CrossEntropyLoss(weight=w)\<close> with the default mean reduction: the weighted sum of
  the negative log-probabilities of the target classes, divided by the sum of the weights
  of the targets. On an empty batch the quotient is not a number. The targets are class
  indices, so the library's ignore index \<open>-100\<close> is outside their type.
\<close>

datatype scalar = NaN | Scalar real

definition log_softmax :: "real list \<Rightarrow> nat \<Rightarrow> real" where
  "log_softmax row y = row ! y - ln (sum_list (map exp row))"

definition CrossEntropyLoss :: "real list \<Rightarrow> real list list \<Rightarrow> nat list \<Rightarrow> error + scalar" where
  "CrossEntropyLoss w logits target =
     (if length logits = length target then
        (if list_all (\<lambda>row. length row = length w) logits then
           (if list_all (\<lambda>y. y < length w) target then
              (if target = [] then Inr NaN
               else Inr (Scalar
                      (sum_list (map2 (\<lambda>row y. w ! y * (- log_softmax row y)) logits target)
                       / sum_list (map (\<lambda>y. w ! y) target))))
            else Inl IndexError)
         else Inl RuntimeError)
      else Inl ValueError)"

record model_output =
  loss :: "scalar option"
  logits :: "real list list"

definition class_weights :: "real list" where
  "class_weights = [1.0, 3.0]"

definition forward ::
  "model \<Rightarrow> nat list list \<Rightarrow> nat list list \<Rightarrow> real list list option \<Rightarrow> nat list option \<Rightarrow>
   error + model_output" where
  "forward m ids amask glove lbls =
     (let pooled_output = bert m ids amask;
          pooled_output = nn_Dropout m pooled_output;
          glove = (case glove of
                     None \<Rightarrow> torch_zeros (length pooled_output) 300
                   | Some g \<Rightarrow> g)
      in case torch_cat pooled_output glove of
           Inl e \<Rightarrow> Inl e
         | Inr combined \<Rightarrow>
             (case linear_forward (classifier m) combined of
                Inl e \<Rightarrow> Inl e
              | Inr lg \<Rightarrow>
                  (case lbls of
                     None \<Rightarrow> Inr \<lparr>loss = None, logits = lg\<rparr>
                   | Some ys \<Rightarrow>
                       (case CrossEntropyLoss class_weights lg ys of
                          Inl e \<Rightarrow> Inl e
                        | Inr l \<Rightarrow> Inr \<lparr>loss = Some l, logits = lg\<rparr>))))"

subsection \<open>Prediction on a batch, probabilities and thresholds\<close>

fun fetch :: "dataset \<Rightarrow> nat list \<Rightarrow> error + item list" where
  "fetch ds [] = Inr []"
| "fetch ds (i # is) =
     (case getitem ds i of
        Inl e \<Rightarrow> Inl e
      | Inr x \<Rightarrow> (case fetch ds is of Inl e \<Rightarrow> Inl e | Inr xs \<Rightarrow> Inr (x # xs)))"

text \<open>The data loader: the examples of a batch of indices are fetched and collated.\<close>

definition load_batch :: "dataset \<Rightarrow> nat list \<Rightarrow> error + batch" where
  "load_batch ds idxs =
     (case fetch ds idxs of Inl e \<Rightarrow> Inl e | Inr items \<Rightarrow> collate_fn items)"

text \<open>
  The trainer is a library outside the sources. Its prediction step on one batch is
  modelled as far as the labels decide it. The collated fields of the batch are the
  keyword arguments of \<open>forward\<close>. When the batch has labels, the loss is taken out of
  the output and the predictions are its remaining entry, the logits. When the labels of
  the batch are \<open>None\<close>, every entry of the output is kept as a prediction, the entry
  \<^verbatim>\<open>"loss"\<close> too; that entry is \<open>None\<close> then, and gathering the predictions raises
  TypeError. (A loss that is present does not occur without labels.)
\<close>

definition prediction_step :: "model \<Rightarrow> batch \<Rightarrow> error + real list list" where
  "prediction_step m b =
     (case forward m (batch_input_ids b) (batch_attention_mask b)
             (Some (batch_glove_emb b)) (batch_labels b) of
        Inl e \<Rightarrow> Inl e
      | Inr out \<Rightarrow>
          (case batch_labels b of
             Some ys \<Rightarrow> Inr (logits out)
           | None \<Rightarrow> (case loss out of None \<Rightarrow> Inl TypeError | Some l \<Rightarrow> Inr (logits out))))"

text \<open>One step of \<^verbatim>\<open>trainer.predict\<close> on a dataset: the logits of one batch.\<close>

definition predict_step :: "model \<Rightarrow> dataset \<Rightarrow> nat list \<Rightarrow> error + real list list" where
  "predict_step m ds idxs =
     (case load_batch ds idxs of Inl e \<Rightarrow> Inl e | Inr b \<Rightarrow> prediction_step m b)"

definition softmax :: "real list \<Rightarrow> real list" where
  "softmax row = map (\<lambda>x. exp x / sum_list (map exp row)) row"

text \<open>\<^verbatim>\<open>torch.softmax(logits, dim=1).numpy()[:, 1]\<close>: the probability of class 1.\<close>

definition positive_probs :: "real list list \<Rightarrow> error + real list" where
  "positive_probs lg =
     (if list_all (\<lambda>row. 1 < length row) lg
      then Inr (map (\<lambda>row. softmax row ! 1) lg)
      else Inl IndexError)"

text \<open>\<^verbatim>\<open>(probs >= t).astype(int)\<close>.\<close>

definition threshold_labels :: "real list \<Rightarrow> real \<Rightarrow> nat list" where
  "threshold_labels probs t = map (\<lambda>p. if p \<ge> t then 1 else 0) probs"

definition final_threshold :: real where
  "final_threshold = 0.3"

definition test_labels :: "real list list \<Rightarrow> error + nat list" where
  "test_labels test_logits =
     (case positive_probs test_logits of
        Inl e \<Rightarrow> Inl e
      | Inr test_probs \<Rightarrow> Inr (threshold_labels test_probs final_threshold))"

subsection \<open>Metrics and the threshold sweep\<close>

text \<open>
  The metrics of the library for the positive class 1 of binary targets: precision is
  the share of predicted positives that are true, recall the share of true positives
  that are predicted, F1 their harmonic mean; a quotient with denominator zero is the
  value 0 (with a warning). The labels are the class ids 0 and 1.
\<close>

definition true_positives :: "nat list \<Rightarrow> nat list \<Rightarrow> nat" where
  "true_positives y_true y_pred =
     length (filter (\<lambda>(y, p). y = 1 \<and> p = 1) (zip y_true y_pred))"

definition positives :: "nat list \<Rightarrow> nat" where
  "positives ys = length (filter (\<lambda>y. y = 1) ys)"

definition precision_value :: "nat list \<Rightarrow> nat list \<Rightarrow> real" where
  "precision_value y_true y_pred =
     (if positives y_pred = 0 then 0
      else real (true_positives y_true y_pred) / real (positives y_pred))"

definition recall_value :: "nat list \<Rightarrow> nat list \<Rightarrow> real" where
  "recall_value y_true y_pred =
     (if positives y_true = 0 then 0
      else real (true_positives y_true y_pred) / real (positives y_true))"

definition f1_value :: "nat list \<Rightarrow> nat list \<Rightarrow> real" where
  "f1_value y_true y_pred =
     (let p = precision_value y_true y_pred; r = recall_value y_true y_pred
      in if p + r = 0 then 0 else 2 * p * r / (p + r))"

text \<open>\<^verbatim>\<open>f1_score(y_true, y_pred)\<close> raises ValueError on sequences of different lengths.\<close>

definition f1_score :: "nat list \<Rightarrow> nat list \<Rightarrow> error + real" where
  "f1_score y_true y_pred =
     (if length y_true = length y_pred then Inr (f1_value y_true y_pred)
      else Inl ValueError)"

text \<open>
  The loop of the last cell over the candidate thresholds, with the state
  \<open>(best_t, best_f1)\<close>.
\<close>

fun sweep :: "real list \<Rightarrow> nat list \<Rightarrow> real list \<Rightarrow> real \<times> real \<Rightarrow> error + real \<times> real" where
  "sweep dev_probs y_dev [] (best_t, best_f1) = Inr (best_t, best_f1)"
| "sweep dev_probs y_dev (t # ts) (best_t, best_f1) =
     (case f1_score y_dev (threshold_labels dev_probs t) of
        Inl e \<Rightarrow> Inl e
      | Inr f1 \<Rightarrow>
          if f1 > best_f1 then sweep dev_probs y_dev ts (t, f1)
          else sweep dev_probs y_dev ts (best_t, best_f1))"

text \<open>The cell starts from \<^verbatim>\<open>best_f1 = 0\<close> and \<^verbatim>\<open>best_t = 0.5\<close>.\<close>

definition best_threshold :: "real list \<Rightarrow> nat list \<Rightarrow> real list \<Rightarrow> error + real \<times> real" where
  "best_threshold dev_probs y_dev candidates = sweep dev_probs y_dev candidates (0.5, 0)"

text \<open>\<^verbatim>\<open>np.arange(0.05, 0.5, 0.01)\<close>: the 45 candidates 0.05, 0.06, ..., 0.49.\<close>

definition candidate_grid :: "real list" where
  "candidate_grid = map (\<lambda>k. 0.05 + real k * 0.01) [0..<45]"

section \<open>Properties\<close>

subsection \<open>Splitting on whitespace\<close>

lemma split_from_nonspace:
  "list_all (\<lambda>c. \<not> isspace c) w \<Longrightarrow> split_from cur (w @ rest) = split_from (cur @ w) rest"
  by (induction w arbitrary: cur) auto

lemma split_from_word:
  "list_all (\<lambda>c. \<not> isspace c) w \<Longrightarrow> split_from cur w = (if cur @ w = [] then [] else [cur @ w])"
  by (induction w arbitrary: cur) auto

lemma split_from_sep:
  "isspace c \<Longrightarrow> split_from cur (a @ c # b) = split_from cur a @ split_from [] b"
  by (induction a arbitrary: cur) auto

lemma split_from_tokens:
  "list_all (\<lambda>c. \<not> isspace c) cur \<Longrightarrow>
   \<forall>tok\<in>set (split_from cur s). tok \<noteq> [] \<and> list_all (\<lambda>c. \<not> isspace c) tok"
proof (induction s arbitrary: cur)
  case Nil
  then show ?case by simp
next
  case (Cons a s)
  have empty: "\<forall>tok\<in>set (split_from [] s). tok \<noteq> [] \<and> list_all (\<lambda>c. \<not> isspace c) tok"
    using Cons.IH[of "[]"] by simp
  show ?case
  proof (cases "isspace a")
    case True
    then show ?thesis using empty Cons.prems by simp
  next
    case False
    then show ?thesis using Cons.IH[of "cur @ [a]"] Cons.prems by simp
  qed
qed

lemma str_split_tokens:
  "tok \<in> set (str_split s) \<Longrightarrow> tok \<noteq> [] \<and> list_all (\<lambda>c. \<not> isspace c) tok"
  using split_from_tokens[of "[]" s] by (simp add: str_split_def)

lemma str_split_sep:
  "isspace c \<Longrightarrow> str_split (a @ c # b) = str_split a @ str_split b"
  by (simp add: str_split_def split_from_sep)

lemma str_split_word:
  "w \<noteq> [] \<Longrightarrow> list_all (\<lambda>c. \<not> isspace c) w \<Longrightarrow> str_split w = [w]"
  by (simp add: str_split_def split_from_word)

lemma str_split_dropWhile: "str_split (dropWhile isspace s) = str_split s"
  by (induction s) (auto simp: str_split_def)

lemma split_from_trailing:
  "list_all isspace ws \<Longrightarrow> split_from cur (s @ ws) = split_from cur s"
proof (induction s arbitrary: cur)
  case Nil
  have "\<And>cur. list_all isspace ws \<Longrightarrow> split_from cur ws = (if cur = [] then [] else [cur])"
  proof (induction ws)
    case Nil then show ?case by simp
  next
    case (Cons a ws) then show ?case by (cases "cur = []") auto 
  qed
  with Nil show ?case by simp
next
  case (Cons a s) then show ?case by auto
qed

lemma rev_dropWhile_rev: "\<exists>ws. list_all isspace ws \<and> s = rev (dropWhile isspace (rev s)) @ ws"
proof -
  have "rev s = takeWhile isspace (rev s) @ dropWhile isspace (rev s)" by simp
  then have "s = rev (dropWhile isspace (rev s)) @ rev (takeWhile isspace (rev s))"
    by (metis rev_append rev_rev_ident)
  moreover have "list_all isspace (rev (takeWhile isspace (rev s)))"
    by (simp add: list_all_iff) (meson set_takeWhileD)
  ultimately show ?thesis by blast
qed

lemma str_split_strip: "str_split (str_strip s) = str_split s"
proof -
  obtain ws where ws: "list_all isspace ws"
    "dropWhile isspace s = rev (dropWhile isspace (rev (dropWhile isspace s))) @ ws"
    using rev_dropWhile_rev by blast
  have "str_split (str_strip s) = split_from [] (str_strip s @ ws)"
    using ws(1) by (simp add: str_split_def split_from_trailing)
  also have "\<dots> = str_split (dropWhile isspace s)"
    using ws(2) by (simp add: str_split_def str_strip_def)
  finally show ?thesis by (simp add: str_split_dropWhile)
qed

subsection \<open>The averaged vector\<close>

lemma collect_vectors_eq:
  "collect_vectors store acc toks = acc @ List.map_filter store toks"
  by (induction toks arbitrary: acc) (auto simp: List.map_filter_simps split: option.splits)

lemma length_foldl_vec_add:
  "list_all (\<lambda>u. length u = length v) rest \<Longrightarrow> length (foldl vec_add v rest) = length v"
  by (induction rest arbitrary: v) (auto simp: vec_add_def)

lemma nth_foldl_vec_add:
  "list_all (\<lambda>u. length u = length v) rest \<Longrightarrow> i < length v \<Longrightarrow>
   foldl vec_add v rest ! i = v ! i + (\<Sum>u\<leftarrow>rest. u ! i)"
  by (induction rest arbitrary: v) (auto simp: vec_add_def)

lemma np_mean_axis0_eq:
  assumes "vs \<noteq> []" "\<forall>v\<in>set vs. length v = d"
  shows "np_mean_axis0 vs = Inr (map (\<lambda>i. (\<Sum>v\<leftarrow>vs. v ! i) / real (length vs)) [0..<d])"
proof -
  obtain v rest where vs: "vs = v # rest" using assms(1) by (cases vs) auto
  have all: "list_all (\<lambda>u. length u = length v) rest" and lv: "length v = d"
    using assms(2) by (auto simp: vs list_all_iff)
  have "map (\<lambda>s. s / real (length vs)) (foldl vec_add v rest)
        = map (\<lambda>i. (\<Sum>v\<leftarrow>vs. v ! i) / real (length vs)) [0..<d]"
    by (rule nth_equalityI) (simp_all add: length_foldl_vec_add[OF all] nth_foldl_vec_add[OF all] lv vs)
  then show ?thesis using all by (simp add: np_mean_axis0_def vs)
qed

lemma np_mean_axis0_ragged:
  assumes "v \<in> set vs" "u \<in> set vs" "length u \<noteq> length v"
  shows "np_mean_axis0 vs = Inl ValueError"
proof -
  obtain a rest where vs: "vs = a # rest" using assms(1) by (cases vs) auto
  obtain w where "w \<in> set vs" "length w \<noteq> length a" using assms by metis
  then have "w \<in> set rest" "length w \<noteq> length a" by (auto simp: vs)
  then have "\<not> list_all (\<lambda>u. length u = length a) rest" by (auto simp: list_all_iff)
  then show ?thesis by (simp add: np_mean_axis0_def vs)
qed

lemma collect_vectors_hits:
  "collect_vectors store [] toks = map (the \<circ> store) (filter (\<lambda>tok. tok \<in> dom store) toks)"
proof -
  have "List.map_filter store toks = map (the \<circ> store) (filter (\<lambda>tok. tok \<in> dom store) toks)"
    by (simp add: List.map_filter_def dom_def comp_def)
  then show ?thesis by (simp add: collect_vectors_eq)
qed

text \<open>
  C2. \<open>text_to_avg_glove\<close> splits the text on whitespace, looks every token up in the
  store and returns the element-wise arithmetic mean of the vectors found, the hits; with
  no hit it returns the zero vector of length \<open>embed_dim\<close>. The hits are the vectors of
  the tokens that are keys of the store, in the order of the text, and the mean is taken
  of hits that share one length \<open>d\<close>. The tokens are the non-empty whitespace-free
  pieces of the text: a whitespace character separates the tokens on its two sides, and
  a whitespace-free word is its own single token. With the store
  \<open>{"cow": [1,0], "gene": [0,1]}\<close> the text \<open>"cow gene unknown"\<close> maps to \<open>[0.5, 0.5]\<close> and
  the text \<open>"xyz123"\<close>, which has no token in the store, to \<open>[0, 0]\<close>.
\<close>

theorem text_to_avg_glove_mean_of_hits:
  "(let hits = map (the \<circ> store) (filter (\<lambda>tok. tok \<in> dom store) (str_split text))
    in (hits = [] \<longrightarrow> text_to_avg_glove text store embed_dim = Inr (replicate embed_dim 0)) \<and>
       (hits \<noteq> [] \<and> (\<forall>v\<in>set hits. length v = d) \<longrightarrow>
          text_to_avg_glove text store embed_dim =
            Inr (map (\<lambda>i. (\<Sum>v\<leftarrow>hits. v ! i) / real (length hits)) [0..<d]))) \<and>
   (\<forall>tok\<in>set (str_split text). tok \<noteq> [] \<and> list_all (\<lambda>c. \<not> isspace c) tok) \<and>
   (isspace c \<longrightarrow> str_split (a @ c # b) = str_split a @ str_split b) \<and>
   (w \<noteq> [] \<and> list_all (\<lambda>c. \<not> isspace c) w \<longrightarrow> str_split w = [w]) \<and>
   str_split [] = [] \<and>
   text_to_avg_glove ''cow gene unknown'' [''cow'' \<mapsto> [1, 0], ''gene'' \<mapsto> [0, 1]] 2
     = Inr [0.5, 0.5] \<and>
   text_to_avg_glove ''xyz123'' [''cow'' \<mapsto> [1, 0], ''gene'' \<mapsto> [0, 1]] 2 = Inr [0, 0]"
proof -
  let ?hits = "map (the \<circ> store) (filter (\<lambda>tok. tok \<in> dom store) (str_split text))"
  have zero: "?hits = [] \<longrightarrow> text_to_avg_glove text store embed_dim = Inr (replicate embed_dim 0)"
    by (simp add: text_to_avg_glove_def collect_vectors_hits np_zeros_def)
  have mean: "?hits \<noteq> [] \<and> (\<forall>v\<in>set ?hits. length v = d) \<longrightarrow>
          text_to_avg_glove text store embed_dim =
            Inr (map (\<lambda>i. (\<Sum>v\<leftarrow>?hits. v ! i) / real (length ?hits)) [0..<d])"
  proof
    assume h: "?hits \<noteq> [] \<and> (\<forall>v\<in>set ?hits. length v = d)"
    then have "np_mean_axis0 ?hits =
        Inr (map (\<lambda>i. (\<Sum>v\<leftarrow>?hits. v ! i) / real (length ?hits)) [0..<d])"
      by (intro np_mean_axis0_eq) blast+
    with h show "text_to_avg_glove text store embed_dim =
            Inr (map (\<lambda>i. (\<Sum>v\<leftarrow>?hits. v ! i) / real (length ?hits)) [0..<d])"
      by (simp add: text_to_avg_glove_def collect_vectors_hits Let_def)
  qed
  have toks: "\<forall>tok\<in>set (str_split text). tok \<noteq> [] \<and> list_all (\<lambda>c. \<not> isspace c) tok"
    using str_split_tokens by blast
  have e0: "str_split [] = []" by (simp add: str_split_def)
  have e1: "text_to_avg_glove ''cow gene unknown'' [''cow'' \<mapsto> [1, 0], ''gene'' \<mapsto> [0, 1]] 2
     = Inr [0.5, 0.5]"
    by (simp add: text_to_avg_glove_def str_split_def isspace_def np_mean_axis0_def vec_add_def)
  have e2: "text_to_avg_glove ''xyz123'' [''cow'' \<mapsto> [1, 0], ''gene'' \<mapsto> [0, 1]] 2 = Inr [0, 0]"
    by (simp add: text_to_avg_glove_def str_split_def isspace_def np_zeros_def numeral_2_eq_2)
  show ?thesis
    unfolding Let_def using zero mean toks e0 e1 e2 str_split_sep str_split_word by blast
qed


theorem text_to_avg_glove_mean_of_hits_witness:
  "text_to_avg_glove ''bull  cow'' [''cow'' \<mapsto> [2, 4], ''bull'' \<mapsto> [4, 0]] 7 = Inr [3, 2] \<and>
   text_to_avg_glove ''the horse'' [''cow'' \<mapsto> [2, 4], ''bull'' \<mapsto> [4, 0]] 3 = Inr [0, 0, 0] \<and>
   str_split ''a b'' = str_split ''a'' @ str_split ''b''"
proof -
  let ?S = "[''cow'' \<mapsto> [2, 4], ''bull'' \<mapsto> [4, 0 :: real]]"
  have sp: "str_split ''bull  cow'' = [''bull'', ''cow'']"
    "str_split ''the horse'' = [''the'', ''horse'']"
    by (simp_all add: str_split_def isspace_def)
  have h1: "map (the \<circ> ?S) (filter (\<lambda>tok. tok \<in> dom ?S) (str_split ''bull  cow''))
            = [[4, 0], [2, 4]]"
    by (simp add: sp)
  have h2: "map (the \<circ> ?S) (filter (\<lambda>tok. tok \<in> dom ?S) (str_split ''the horse'')) = []"
    by (simp add: sp)
  have r: "[0..<2] = [0, 1]" by (simp add: upt_rec)
  have sp_space: "isspace (CHR '' '')" by (simp add: isspace_def)
  have a: "text_to_avg_glove ''bull  cow'' ?S 7 = Inr [3, 2]"
    using text_to_avg_glove_mean_of_hits[of ?S "''bull  cow''" 7 2 "CHR '' ''" "''a''" "''b''" "''a''",
            unfolded Let_def h1, THEN conjunct1, THEN conjunct2]
    by (simp add: r)
  have b: "text_to_avg_glove ''the horse'' ?S 3 = Inr [0, 0, 0]"
    using text_to_avg_glove_mean_of_hits[of ?S "''the horse''" 3 2 "CHR '' ''" "''a''" "''b''" "''a''",
            unfolded Let_def h2, THEN conjunct1, THEN conjunct1]
    by (simp add: numeral_3_eq_3)
  have c: "str_split ''a b'' = str_split ''a'' @ str_split ''b''"
    using text_to_avg_glove_mean_of_hits[of ?S "''the horse''" 3 2 "CHR '' ''" "''a''" "''b''" "''a''",
            THEN conjunct2, THEN conjunct2, THEN conjunct1] sp_space
    by simp
  show ?thesis using a b c by blast
qed

subsection \<open>Loading the embedding file\<close>

lemma np_array_ok:
  "list_all (\<lambda>f. to_float f \<noteq> None) vals \<Longrightarrow>
   np_array to_float vals = Inr (map (the \<circ> to_float) vals)"
  by (induction vals) auto

lemma np_array_bad:
  "\<not> list_all (\<lambda>f. to_float f \<noteq> None) vals \<Longrightarrow> np_array to_float vals = Inl ValueError"
  by (induction vals) (auto split: option.splits sum.splits)

lemma load_lines_ok:
  "list_all (accepted_line to_float) ls \<Longrightarrow>
   load_lines to_float emb ls =
     Inr (emb ++ map_of (rev (map (\<lambda>l. (hd (str_split l), map (the \<circ> to_float) (tl (str_split l)))) ls)))"
proof (induction ls arbitrary: emb)
  case Nil
  then show ?case by simp
next
  case (Cons l ls)
  then obtain word vals where sp: "str_split l = word # vals"
    by (cases "str_split l") (auto simp: accepted_line_def)
  with Cons.prems have "np_array to_float vals = Inr (map (the \<circ> to_float) vals)"
    by (simp add: np_array_ok accepted_line_def)
  with Cons sp show ?case
    by (simp add: str_split_strip map_add_upd_left comp_def)
qed

lemma load_lines_bad:
  "list_all (accepted_line to_float) good \<Longrightarrow> \<not> accepted_line to_float bad \<Longrightarrow>
   load_lines to_float emb (good @ bad # rest) =
     Inl (if str_split bad = [] then IndexError else ValueError)"
proof (induction good arbitrary: emb)
  case Nil
  then show ?case
    by (cases "str_split bad") (auto simp: accepted_line_def str_split_strip np_array_bad)
next
  case (Cons l ls)
  then obtain word vals where sp: "str_split l = word # vals"
    by (cases "str_split l") (auto simp: accepted_line_def)
  with Cons.prems have "np_array to_float vals = Inr (map (the \<circ> to_float) vals)"
    by (simp add: np_array_ok accepted_line_def)
  with Cons sp show ?case
    by (simp add: str_split_strip)
qed

lemma load_glove_embeddings_ok:
  "list_all (accepted_line to_float) ls \<Longrightarrow>
   load_glove_embeddings to_float ls =
     Inr (map_of (rev (map (\<lambda>l. (hd (str_split l), map (the \<circ> to_float) (tl (str_split l)))) ls)))"
  by (simp add: load_glove_embeddings_def load_lines_ok)

text \<open>
  C4, as the code has it. Loading fails with IndexError at the first line that has no
  field and with ValueError at the first line with a field after the token that is not a
  number. The number of fields of a line is not checked and the dimensions of the vectors
  are not compared: a file whose lines each hold a token followed by any number of numeric
  fields loads, and each token is mapped to the vector of the last line that starts with
  it. When every line has \<open>D + 1\<close> fields, every vector of the store has dimension \<open>D\<close>.
\<close>

theorem load_glove_embeddings_unchecked_dimension:
  "(list_all (accepted_line to_float) ls \<longrightarrow>
      load_glove_embeddings to_float ls =
        Inr (map_of (rev (map (\<lambda>l. (hd (str_split l), map (the \<circ> to_float) (tl (str_split l))))
                              ls)))) \<and>
   (list_all (accepted_line to_float) good \<and> \<not> accepted_line to_float bad \<longrightarrow>
      load_glove_embeddings to_float (good @ bad # rest) =
        Inl (if str_split bad = [] then IndexError else ValueError)) \<and>
   (list_all (\<lambda>l. accepted_line to_float l \<and> length (str_split l) = D + 1) ls \<and>
    load_glove_embeddings to_float ls = Inr store \<and> store word = Some v \<longrightarrow> length v = D)"
proof (intro conjI impI)
  assume "list_all (accepted_line to_float) ls"
  then show "load_glove_embeddings to_float ls =
        Inr (map_of (rev (map (\<lambda>l. (hd (str_split l), map (the \<circ> to_float) (tl (str_split l))))
                              ls)))"
    by (rule load_glove_embeddings_ok)
next
  assume "list_all (accepted_line to_float) good \<and> \<not> accepted_line to_float bad"
  then show "load_glove_embeddings to_float (good @ bad # rest) =
        Inl (if str_split bad = [] then IndexError else ValueError)"
    unfolding load_glove_embeddings_def by (intro load_lines_bad) simp_all
next
  assume h: "list_all (\<lambda>l. accepted_line to_float l \<and> length (str_split l) = D + 1) ls \<and>
    load_glove_embeddings to_float ls = Inr store \<and> store word = Some v"
  then have ok: "list_all (accepted_line to_float) ls" by (simp add: list_all_iff)
  let ?entries = "map (\<lambda>l. (hd (str_split l), map (the \<circ> to_float) (tl (str_split l)))) ls"
  have "store = map_of (rev ?entries)"
    using h load_glove_embeddings_ok[OF ok] by simp
  with h have "(word, v) \<in> set (rev ?entries)" by (auto dest: map_of_SomeD)
  then obtain l where "l \<in> set ls" "v = map (the \<circ> to_float) (tl (str_split l))" by auto
  with h show "length v = D" by (auto simp: list_all_iff)
qed

theorem load_glove_embeddings_unchecked_dimension_witness:
  "load_glove_embeddings decimal_float [''cow 1 0'', ''gene 0.5'', ''cow 2'']
     = Inr (map_of [(''cow'', [2]), (''gene'', [1 / 2]), (''cow'', [1, 0])]) \<and>
   load_glove_embeddings decimal_float [''cow 1 0'', ''gene x'', ''pig 1 1''] = Inl ValueError \<and>
   load_glove_embeddings decimal_float [''cow 1 0'', '' '', ''pig 1 1''] = Inl IndexError"
proof -
  have sp: "str_split ''cow 1 0'' = [''cow'', ''1'', ''0'']"
    "str_split ''gene 0.5'' = [''gene'', ''0.5'']" "str_split ''cow 2'' = [''cow'', ''2'']"
    "str_split ''gene x'' = [''gene'', ''x'']" "str_split '' '' = []"
    by (simp_all add: str_split_def isspace_def)
  have fl: "decimal_float ''1'' = Some 1" "decimal_float ''0'' = Some 0"
    "decimal_float ''2'' = Some 2" "decimal_float ''0.5'' = Some (1 / 2)"
    "decimal_float ''x'' = None"
    by (simp_all add: unsigned_decimal_def digit_of_def)
  have ok: "list_all (accepted_line decimal_float) [''cow 1 0'', ''gene 0.5'', ''cow 2'']"
    "list_all (accepted_line decimal_float) [''cow 1 0'']"
    by (simp_all add: accepted_line_def sp fl del: decimal_float.simps not_None_eq)
  have bad: "\<not> accepted_line decimal_float ''gene x''" "\<not> accepted_line decimal_float '' ''"
    by (simp_all add: accepted_line_def sp fl del: decimal_float.simps not_None_eq)
  have a: "load_glove_embeddings decimal_float [''cow 1 0'', ''gene 0.5'', ''cow 2'']
     = Inr (map_of [(''cow'', [2]), (''gene'', [1 / 2]), (''cow'', [1, 0])])"
    using load_glove_embeddings_unchecked_dimension[of decimal_float
        "[''cow 1 0'', ''gene 0.5'', ''cow 2'']", THEN conjunct1] ok(1)
    by (simp add: sp fl del: decimal_float.simps)
  have b: "load_glove_embeddings decimal_float [''cow 1 0'', ''gene x'', ''pig 1 1''] = Inl ValueError"
    using load_glove_embeddings_unchecked_dimension[of decimal_float _ "[''cow 1 0'']" "''gene x''"
        "[''pig 1 1'']", THEN conjunct2, THEN conjunct1] ok(2) bad(1)
    by (simp add: sp)
  have c: "load_glove_embeddings decimal_float [''cow 1 0'', '' '', ''pig 1 1''] = Inl IndexError"
    using load_glove_embeddings_unchecked_dimension[of decimal_float _ "[''cow 1 0'']" "'' ''"
        "[''pig 1 1'']", THEN conjunct2, THEN conjunct1] ok(2) bad(2)
    by (simp add: sp)
  show ?thesis using a b c by blast
qed

text \<open>
  A file of dimension 2 whose second line has two fields only: it loads, and the two
  vectors of the store have different dimensions.
\<close>

theorem load_glove_embeddings_short_line_counterexample:
  "load_glove_embeddings decimal_float [''cow 1 0'', ''gene 1'']
     = Inr [''cow'' \<mapsto> [1, 0], ''gene'' \<mapsto> [1]]"
  by (simp add: load_glove_embeddings_def str_split_def str_strip_def isspace_def
      unsigned_decimal_def digit_of_def)

subsection \<open>Thresholds and recall\<close>








subsection \<open>The threshold sweep\<close>

lemma length_threshold_labels: "length (threshold_labels probs t) = length probs"
  by (simp add: threshold_labels_def)

lemma f1_score_total:
  "length probs = length y \<Longrightarrow>
   f1_score y (threshold_labels probs t) = Inr (f1_value y (threshold_labels probs t))"
  by (simp add: f1_score_def length_threshold_labels)

lemma true_positives_le_positives: "true_positives y p \<le> positives p"
proof -
  have "true_positives y p \<le> length (filter (\<lambda>(a, b). b = 1) (zip y p))"
    unfolding true_positives_def
    by (induction y p rule: list_induct2') auto
  also have "\<dots> \<le> positives p"
    unfolding positives_def
    by (induction y p rule: list_induct2') auto
  finally show ?thesis .
qed

lemma f1_value_nonneg: "0 \<le> f1_value y p"
  by (simp add: f1_value_def precision_value_def recall_value_def Let_def)

lemma f1_value_degenerate: "true_positives y p = 0 \<Longrightarrow> f1_value y p = 0"
  by (simp add: f1_value_def precision_value_def recall_value_def Let_def)

lemma f1_value_no_predicted_positive: "positives p = 0 \<Longrightarrow> f1_value y p = 0"
  using true_positives_le_positives[of y p] by (simp add: f1_value_degenerate)

lemma sweep_Cons:
  "length probs = length y \<Longrightarrow>
   sweep probs y (t # ts) (bt, bf) =
     (if f1_value y (threshold_labels probs t) > bf
      then sweep probs y ts (t, f1_value y (threshold_labels probs t))
      else sweep probs y ts (bt, bf))"
  by (simp add: f1_score_total)

lemma sweep_total:
  "length probs = length y \<Longrightarrow> \<exists>rt rf. sweep probs y ts (bt, bf) = Inr (rt, rf)"
  by (induction ts arbitrary: bt bf) (simp_all add: sweep_Cons del: sweep.simps(2))

lemma sweep_unbeaten:
  "length probs = length y \<Longrightarrow> \<forall>c\<in>set ts. f1_value y (threshold_labels probs c) \<le> bf \<Longrightarrow>
   sweep probs y ts (bt, bf) = Inr (bt, bf)"
  by (induction ts) (simp_all add: sweep_Cons del: sweep.simps(2))

lemma sweep_first_maximum:
  assumes len: "length probs = length y"
    and res: "sweep probs y ts (bt, bf) = Inr (rt, rf)"
    and ex: "\<exists>c\<in>set ts. f1_value y (threshold_labels probs c) > bf"
  shows "bf < rf \<and> rf = f1_value y (threshold_labels probs rt) \<and>
     (\<exists>pre post. ts = pre @ rt # post \<and>
        (\<forall>c\<in>set pre. f1_value y (threshold_labels probs c) < rf) \<and>
        (\<forall>c\<in>set post. f1_value y (threshold_labels probs c) \<le> rf))"
proof -
  define F where "F = (\<lambda>c. f1_value y (threshold_labels probs c))"
  have step: "sweep probs y (t # ts) (bt, bf) =
     (if F t > bf then sweep probs y ts (t, F t) else sweep probs y ts (bt, bf))" for t ts bt bf
    unfolding F_def by (rule sweep_Cons[OF len])
  have keep: "sweep probs y ts (bt, bf) = Inr (bt, bf)" if "\<forall>c\<in>set ts. F c \<le> bf" for ts bt bf
    using that unfolding F_def by (intro sweep_unbeaten[OF len]) simp
  have main: "sweep probs y ts (bt, bf) = Inr (rt, rf) \<Longrightarrow> \<exists>c\<in>set ts. F c > bf \<Longrightarrow>
     bf < rf \<and> rf = F rt \<and>
     (\<exists>pre post. ts = pre @ rt # post \<and> (\<forall>c\<in>set pre. F c < rf) \<and> (\<forall>c\<in>set post. F c \<le> rf))"
    for bt bf
  proof (induction ts arbitrary: bt bf)
    case Nil
    then show ?case by simp
  next
    case (Cons t ts)
    show ?case
    proof (cases "F t > bf")
      case True
      then have r: "sweep probs y ts (t, F t) = Inr (rt, rf)"
        using Cons.prems(1) by (simp only: step if_True)
      show ?thesis
      proof (cases "\<forall>c\<in>set ts. F c \<le> F t")
        case all: True
        then have "Inr (rt, rf) = (Inr (t, F t) :: error + real \<times> real)"
          using keep[of ts "F t" t] r by simp
        then have e: "rt = t" "rf = F t" by simp_all
        have "t # ts = [] @ rt # ts" using e by simp
        moreover have "\<forall>c\<in>set []. F c < rf" by simp
        moreover have "\<forall>c\<in>set ts. F c \<le> rf" using all e by simp
        ultimately have "\<exists>pre post. t # ts = pre @ rt # post \<and> (\<forall>c\<in>set pre. F c < rf) \<and>
            (\<forall>c\<in>set post. F c \<le> rf)" by blast
        then show ?thesis using True e by simp
      next
        case False
        then have "\<exists>c\<in>set ts. F c > F t" by (simp add: not_le)
        from Cons.IH[OF r this] obtain pre post where p: "F t < rf" "rf = F rt"
          "ts = pre @ rt # post" "\<forall>c\<in>set pre. F c < rf" "\<forall>c\<in>set post. F c \<le> rf"
          by blast
        have "t # ts = (t # pre) @ rt # post" using p(3) by simp
        moreover have "\<forall>c\<in>set (t # pre). F c < rf" using p(1,4) by simp
        ultimately have "\<exists>pre post. t # ts = pre @ rt # post \<and> (\<forall>c\<in>set pre. F c < rf) \<and>
            (\<forall>c\<in>set post. F c \<le> rf)" using p(5) by blast
        then show ?thesis using True p(1,2) by simp
      qed
    next
      case False
      then have r: "sweep probs y ts (bt, bf) = Inr (rt, rf)"
        using Cons.prems(1) by (simp only: step if_False)
      have "\<exists>c\<in>set ts. F c > bf" using Cons.prems(2) False by auto
      from Cons.IH[OF r this] obtain pre post where p: "bf < rf" "rf = F rt"
        "ts = pre @ rt # post" "\<forall>c\<in>set pre. F c < rf" "\<forall>c\<in>set post. F c \<le> rf"
        by blast
      have "t # ts = (t # pre) @ rt # post" using p(3) by simp
      moreover have "\<forall>c\<in>set (t # pre). F c < rf" using p(1,4) False by simp
      ultimately have "\<exists>pre post. t # ts = pre @ rt # post \<and> (\<forall>c\<in>set pre. F c < rf) \<and>
          (\<forall>c\<in>set post. F c \<le> rf)" using p(5) by blast
      then show ?thesis using p(1,2) by simp
    qed
  qed
  have "\<exists>c\<in>set ts. F c > bf" using ex by (simp add: F_def)
  from main[OF res this] show ?thesis unfolding F_def .
qed

text \<open>
  C3, as the code has it. For probabilities and labels of one length, the sweep over the
  candidate thresholds (predicting 1 iff the probability is \<open>\<ge> t\<close>) never fails. When
  some candidate has a positive F1, it returns the first candidate in the order of the
  sweep whose F1 is greatest, together with that F1: every candidate before it has a
  strictly smaller F1, none after it has a greater one, and for ascending candidates it
  is the lowest threshold of greatest F1. When every candidate has F1 0, it returns the
  initial threshold 0.5 with F1 0, whether or not 0.5 is a candidate. A candidate with
  no predicted positive or no true positive has F1 0, not an error.
\<close>

theorem best_threshold_first_maximum:
  assumes "length dev_probs = length y_dev"
  shows "\<exists>best_t best_f1.
     best_threshold dev_probs y_dev candidates = Inr (best_t, best_f1) \<and>
     ((\<forall>c\<in>set candidates. f1_value y_dev (threshold_labels dev_probs c) = 0) \<longrightarrow>
        best_t = 0.5 \<and> best_f1 = 0) \<and>
     ((\<exists>c\<in>set candidates. f1_value y_dev (threshold_labels dev_probs c) > 0) \<longrightarrow>
        best_f1 = f1_value y_dev (threshold_labels dev_probs best_t) \<and>
        (\<exists>pre post. candidates = pre @ best_t # post \<and>
           (\<forall>c\<in>set pre. f1_value y_dev (threshold_labels dev_probs c) < best_f1) \<and>
           (\<forall>c\<in>set post. f1_value y_dev (threshold_labels dev_probs c) \<le> best_f1)) \<and>
        (sorted candidates \<longrightarrow>
           (\<forall>c\<in>set candidates.
              f1_value y_dev (threshold_labels dev_probs c) = best_f1 \<longrightarrow> best_t \<le> c))) \<and>
     (positives (threshold_labels dev_probs t) = 0 \<or>
      true_positives y_dev (threshold_labels dev_probs t) = 0 \<longrightarrow>
        f1_score y_dev (threshold_labels dev_probs t) = Inr 0)"
proof -
  define F where "F = (\<lambda>c. f1_value y_dev (threshold_labels dev_probs c))"
  obtain best_t best_f1 where
    res: "sweep dev_probs y_dev candidates (0.5, 0) = Inr (best_t, best_f1)"
    using sweep_total[OF assms] by blast
  have zero: "best_t = 0.5 \<and> best_f1 = 0" if "\<forall>c\<in>set candidates. F c = 0"
  proof -
    have "\<forall>c\<in>set candidates. f1_value y_dev (threshold_labels dev_probs c) \<le> 0"
      using that by (simp add: F_def)
    from sweep_unbeaten[OF assms this, of "0.5"] res show ?thesis by simp
  qed
  have pos: "best_f1 = F best_t \<and>
        (\<exists>pre post. candidates = pre @ best_t # post \<and>
           (\<forall>c\<in>set pre. F c < best_f1) \<and> (\<forall>c\<in>set post. F c \<le> best_f1)) \<and>
        (sorted candidates \<longrightarrow> (\<forall>c\<in>set candidates. F c = best_f1 \<longrightarrow> best_t \<le> c))"
    if "\<exists>c\<in>set candidates. F c > 0"
  proof -
    have "\<exists>c\<in>set candidates. f1_value y_dev (threshold_labels dev_probs c) > 0"
      using that by (simp add: F_def)
    from sweep_first_maximum[OF assms res this]
    obtain pre post where p: "best_f1 = F best_t" "candidates = pre @ best_t # post"
      "\<forall>c\<in>set pre. F c < best_f1" "\<forall>c\<in>set post. F c \<le> best_f1"
      unfolding F_def by blast
    have low: "best_t \<le> c" if s: "sorted candidates" and c: "c \<in> set candidates" "F c = best_f1"
      for c
    proof -
      have "c \<notin> set pre" using p(3) c(2) by auto
      then have "c = best_t \<or> c \<in> set post" using c(1) p(2) by auto
      moreover have "\<forall>x\<in>set post. best_t \<le> x"
        using s p(2) by (simp add: sorted_append)
      ultimately show ?thesis by auto
    qed
    show ?thesis using p low by blast
  qed
  have deg: "f1_score y_dev (threshold_labels dev_probs t) = Inr 0"
    if "positives (threshold_labels dev_probs t) = 0 \<or>
        true_positives y_dev (threshold_labels dev_probs t) = 0"
    using that f1_value_no_predicted_positive[of "threshold_labels dev_probs t" y_dev]
      f1_value_degenerate[of y_dev "threshold_labels dev_probs t"]
    by (auto simp: f1_score_total[OF assms])
  show ?thesis
  proof (intro exI conjI)
    show "best_threshold dev_probs y_dev candidates = Inr (best_t, best_f1)"
      using res by (simp add: best_threshold_def)
    show "(\<forall>c\<in>set candidates. f1_value y_dev (threshold_labels dev_probs c) = 0) \<longrightarrow>
        best_t = 0.5 \<and> best_f1 = 0"
      using zero unfolding F_def by blast
    show "(\<exists>c\<in>set candidates. f1_value y_dev (threshold_labels dev_probs c) > 0) \<longrightarrow>
        best_f1 = f1_value y_dev (threshold_labels dev_probs best_t) \<and>
        (\<exists>pre post. candidates = pre @ best_t # post \<and>
           (\<forall>c\<in>set pre. f1_value y_dev (threshold_labels dev_probs c) < best_f1) \<and>
           (\<forall>c\<in>set post. f1_value y_dev (threshold_labels dev_probs c) \<le> best_f1)) \<and>
        (sorted candidates \<longrightarrow>
           (\<forall>c\<in>set candidates.
              f1_value y_dev (threshold_labels dev_probs c) = best_f1 \<longrightarrow> best_t \<le> c))"
      using pos unfolding F_def by blast
    show "positives (threshold_labels dev_probs t) = 0 \<or>
      true_positives y_dev (threshold_labels dev_probs t) = 0 \<longrightarrow>
        f1_score y_dev (threshold_labels dev_probs t) = Inr 0"
      using deg by blast
  qed
qed

theorem best_threshold_first_maximum_witness:
  "length [0.1, 0.6, 0.9, 0.05 :: real] = length [0, 1, 1, 0 :: nat] \<and>
   best_threshold [0.1, 0.6, 0.9, 0.05] [0, 1, 1, 0] [0.2, 0.5, 0.8] = Inr (0.2, 1)"
proof -
  have len: "length [0.1, 0.6, 0.9, 0.05 :: real] = length [0, 1, 1, 0 :: nat]" by simp
  have ev: "best_threshold [0.1, 0.6, 0.9, 0.05] [0, 1, 1, 0] [0.2, 0.5, 0.8] = Inr (0.2, 1)"
    by (simp add: best_threshold_def f1_score_def threshold_labels_def f1_value_def
        precision_value_def recall_value_def true_positives_def positives_def)
  obtain best_t best_f1 where
    "best_threshold [0.1, 0.6, 0.9, 0.05] [0, 1, 1, 0] [0.2, 0.5, 0.8] = Inr (best_t, best_f1)"
    using best_threshold_first_maximum[OF len, of "[0.2, 0.5, 0.8]"] by blast
  with ev len show ?thesis by simp
qed

text \<open>
  A development set without a positive example: every candidate has F1 0, and the
  threshold returned is 0.5. That is none of the candidates 0.2 and 0.4, and none of the
  45 candidates of the grid the cell sweeps.
\<close>

theorem best_threshold_default_counterexample:
  "best_threshold [0.1, 0.3] [0, 0] [0.2, 0.4] = Inr (0.5, 0) \<and>
   (0.5 :: real) \<noteq> 0.2 \<and> (0.5 :: real) \<noteq> 0.4 \<and>
   best_threshold [0.1, 0.3] [0, 0] candidate_grid = Inr (0.5, 0) \<and>
   (0.5 :: real) \<notin> set candidate_grid"
proof -
  have small: "best_threshold [0.1, 0.3] [0, 0] [0.2, 0.4] = Inr (0.5, 0)"
    by (simp add: best_threshold_def f1_score_def threshold_labels_def f1_value_def
        precision_value_def recall_value_def true_positives_def positives_def)
  have "\<forall>c\<in>set candidate_grid. f1_value [0, 0] (threshold_labels [0.1, 0.3] c) \<le> 0"
    by (simp add: f1_value_degenerate true_positives_def threshold_labels_def)
  from sweep_unbeaten[OF _ this, of "0.5"]
  have grid: "best_threshold [0.1, 0.3] [0, 0] candidate_grid = Inr (0.5, 0)"
    by (simp add: best_threshold_def)
  have out: "(0.5 :: real) \<notin> set candidate_grid"
  proof
    assume "(0.5 :: real) \<in> set candidate_grid"
    then obtain k :: nat where k: "k < 45" "(0.5 :: real) = 0.05 + real k * 0.01"
      by (auto simp: candidate_grid_def)
    then have "real k = 45" by simp
    then have "k = 45" by linarith
    with k(1) show False by simp
  qed
  show ?thesis using small grid out by simp
qed

subsection \<open>The dataset\<close>

lemma length_encode_text:
  "2 \<le> max_length \<Longrightarrow>
   length (fst (encode_text tk max_length t)) = max_length \<and>
   length (snd (encode_text tk max_length t)) = max_length"
  by (auto simp: encode_text_def Let_def)

lemma encode_text_shape:
  assumes "2 \<le> max_length" and "n = min max_length (length (subword_ids tk t) + 2)"
  shows "fst (encode_text tk max_length t) =
           (cls_id tk # take (max_length - 2) (subword_ids tk t) @ [sep_id tk])
           @ replicate (max_length - n) (pad_id tk)"
    and "snd (encode_text tk max_length t) = replicate n 1 @ replicate (max_length - n) 0"
proof -
  have "n = length (cls_id tk # take (max_length - 2) (subword_ids tk t) @ [sep_id tk])"
    using assms by auto
  with assms(1) show "fst (encode_text tk max_length t) =
           (cls_id tk # take (max_length - 2) (subword_ids tk t) @ [sep_id tk])
           @ replicate (max_length - n) (pad_id tk)"
    and "snd (encode_text tk max_length t) = replicate n 1 @ replicate (max_length - n) 0"
    by (simp_all add: encode_text_def Let_def)
qed

lemma glove_embs_of_length:
  "glove_embs_of glove_dict glove_dim texts = Inr embs \<Longrightarrow> length embs = length texts"
  by (induction texts arbitrary: embs) (auto split: sum.splits)

lemma tokenizer_call_Inr:
  assumes "tokenizer_call tk texts max_length = Inr enc"
  shows "texts \<noteq> []"
    "enc_input_ids enc = map (\<lambda>t. fst (encode_text tk max_length t)) texts"
    "enc_attention_mask enc = map (\<lambda>t. snd (encode_text tk max_length t)) texts"
proof -
  obtain row rows where r: "map (encode_text tk max_length) texts = row # rows"
    and enc: "enc = \<lparr>enc_input_ids = map fst (row # rows),
                      enc_attention_mask = map snd (row # rows)\<rparr>"
    using assms by (auto simp: tokenizer_call_def split: list.splits if_splits)
  show "texts \<noteq> []" using r by auto
  have "map fst (row # rows) = map (\<lambda>t. fst (encode_text tk max_length t)) texts"
    "map snd (row # rows) = map (\<lambda>t. snd (encode_text tk max_length t)) texts"
    unfolding r[symmetric] by (simp_all add: comp_def)
  then show "enc_input_ids enc = map (\<lambda>t. fst (encode_text tk max_length t)) texts"
    "enc_attention_mask enc = map (\<lambda>t. snd (encode_text tk max_length t)) texts"
    by (simp_all add: enc)
qed

lemma tokenizer_call_succeeds:
  assumes "2 \<le> max_length" and "texts \<noteq> []"
  shows "\<exists>enc. tokenizer_call tk texts max_length = Inr enc"
proof -
  obtain t ts where t: "texts = t # ts" using assms(2) by (cases texts) auto
  have "list_all (\<lambda>r. length (fst r) = length (fst (encode_text tk max_length t)))
          (map (encode_text tk max_length) ts)"
    using length_encode_text[OF assms(1)] by (simp add: list_all_iff)
  then show ?thesis by (simp add: tokenizer_call_def t)
qed

lemma BertGloveDataset_Inr:
  assumes "BertGloveDataset texts lbls glove_dict tk max_length glove_dim = Inr ds"
  shows "texts \<noteq> []" "ds_texts ds = texts" "ds_labels ds = lbls"
    "length (ds_glove_embs ds) = length texts"
    "enc_input_ids (ds_encodings ds) = map (\<lambda>t. fst (encode_text tk max_length t)) texts"
    "enc_attention_mask (ds_encodings ds) = map (\<lambda>t. snd (encode_text tk max_length t)) texts"
proof -
  obtain embs enc where e: "glove_embs_of glove_dict glove_dim texts = Inr embs"
    "tokenizer_call tk texts max_length = Inr enc"
    and ds: "ds = \<lparr>ds_texts = texts, ds_labels = lbls, ds_glove_dim = glove_dim,
                   ds_glove_embs = embs, ds_encodings = enc\<rparr>"
    using assms by (auto simp: BertGloveDataset_def split: sum.splits)
  note t = tokenizer_call_Inr[OF e(2)]
  show "texts \<noteq> []" by (rule t(1))
  show "ds_texts ds = texts" "ds_labels ds = lbls" by (simp_all add: ds)
  show "length (ds_glove_embs ds) = length texts"
    using glove_embs_of_length[OF e(1)] by (simp add: ds)
  show "enc_input_ids (ds_encodings ds) = map (\<lambda>t. fst (encode_text tk max_length t)) texts"
    "enc_attention_mask (ds_encodings ds) = map (\<lambda>t. snd (encode_text tk max_length t)) texts"
    using t(2,3) by (simp_all add: ds)
qed

lemma BertGloveDataset_labels_irrelevant:
  "BertGloveDataset texts lbls glove_dict tk max_length glove_dim =
     (case BertGloveDataset texts None glove_dict tk max_length glove_dim of
        Inl e \<Rightarrow> Inl e
      | Inr ds \<Rightarrow> Inr (ds\<lparr>ds_labels := lbls\<rparr>))"
  by (simp add: BertGloveDataset_def split: sum.splits)

lemma getitem_Inr:
  assumes "BertGloveDataset texts lbls glove_dict tk max_length glove_dim = Inr ds"
    and "getitem ds idx = Inr x"
  shows "idx < length texts"
    "input_ids x = fst (encode_text tk max_length (texts ! idx))"
    "attention_mask x = snd (encode_text tk max_length (texts ! idx))"
    "glove_emb x = ds_glove_embs ds ! idx"
    "labels x = map_option (\<lambda>ls. ls ! idx) lbls"
    "case lbls of None \<Rightarrow> True | Some ls \<Rightarrow> idx < length ls"
  using assms(2) BertGloveDataset_Inr[OF assms(1)]
  by (auto simp: getitem_def index_def split: sum.splits if_splits option.splits)

lemma getitem_succeeds:
  assumes "BertGloveDataset texts lbls glove_dict tk max_length glove_dim = Inr ds"
    and "idx < length texts" and "case lbls of None \<Rightarrow> True | Some ls \<Rightarrow> idx < length ls"
  shows "\<exists>x. getitem ds idx = Inr x"
  using assms(2,3) BertGloveDataset_Inr[OF assms(1)]
  by (auto simp: getitem_def index_def split: sum.splits if_splits option.splits)

lemma getitem_fails:
  assumes "BertGloveDataset texts lbls glove_dict tk max_length glove_dim = Inr ds"
    and "length texts \<le> idx \<or> (case lbls of None \<Rightarrow> False | Some ls \<Rightarrow> length ls \<le> idx)"
  shows "getitem ds idx = Inl IndexError"
  using assms(2) BertGloveDataset_Inr[OF assms(1)]
  by (auto simp: getitem_def index_def split: sum.splits if_splits option.splits)

lemma BertGloveDataset_succeeds:
  assumes "2 \<le> max_length" and "glove_embs_of glove_dict glove_dim texts = Inr embs"
    and "texts \<noteq> []"
  shows "\<exists>ds. BertGloveDataset texts lbls glove_dict tk max_length glove_dim = Inr ds"
  using assms(2) tokenizer_call_succeeds[OF assms(1,3), of tk]
  by (auto simp: BertGloveDataset_def)

text \<open>
  C5, as the code and the tokenizer have it. When the averaged vectors of the texts
  exist and \<open>max_length\<close> is at least 2, which leaves room for the two special tokens,
  the dataset is built and every example of it, whatever the length of its text, has
  \<open>input_ids\<close> and \<open>attention_mask\<close> of length exactly \<open>max_length\<close>: the subword ids are
  truncated to fit, the sequence is padded on the right with the padding id, and the mask
  is 1 on the real tokens and 0 on the padding.
\<close>

theorem encoded_example_fixed_length:
  assumes "2 \<le> max_length"
    and "glove_embs_of glove_dict glove_dim texts = Inr embs"
    and "idx < length texts"
    and "case lbls of None \<Rightarrow> True | Some ls \<Rightarrow> idx < length ls"
  shows "\<exists>ds x. BertGloveDataset texts lbls glove_dict tk max_length glove_dim = Inr ds \<and>
     getitem ds idx = Inr x \<and>
     length (input_ids x) = max_length \<and> length (attention_mask x) = max_length \<and>
     (let n = min max_length (length (subword_ids tk (texts ! idx)) + 2)
      in input_ids x =
           (cls_id tk # take (max_length - 2) (subword_ids tk (texts ! idx)) @ [sep_id tk])
           @ replicate (max_length - n) (pad_id tk) \<and>
         attention_mask x = replicate n 1 @ replicate (max_length - n) 0)"
proof -
  obtain ds where ds: "BertGloveDataset texts lbls glove_dict tk max_length glove_dim = Inr ds"
    using BertGloveDataset_succeeds[OF assms(1,2)] assms(3) by fastforce
  obtain x where x: "getitem ds idx = Inr x"
    using getitem_succeeds[OF ds assms(3,4)] by blast
  note g = getitem_Inr[OF ds x]
  have "length (input_ids x) = max_length" "length (attention_mask x) = max_length"
    using g(2,3) length_encode_text[OF assms(1)] by simp_all
  moreover have "let n = min max_length (length (subword_ids tk (texts ! idx)) + 2)
      in input_ids x =
           (cls_id tk # take (max_length - 2) (subword_ids tk (texts ! idx)) @ [sep_id tk])
           @ replicate (max_length - n) (pad_id tk) \<and>
         attention_mask x = replicate n 1 @ replicate (max_length - n) 0"
    unfolding Let_def g(2,3) using encode_text_shape[OF assms(1) refl] by blast
  ultimately show ?thesis using ds x by blast
qed

theorem encoded_example_fixed_length_witness:
  "case BertGloveDataset [''cow'', ''the quick brown fox jumps over''] None Map.empty
          word_length_tokenizer 4 2 of
     Inl e \<Rightarrow> False
   | Inr ds \<Rightarrow>
       map (\<lambda>i. case getitem ds i of Inl e \<Rightarrow> None | Inr x \<Rightarrow> Some (input_ids x, attention_mask x))
         [0, 1]
       = [Some ([101, 3, 102, 0], [1, 1, 1, 0]), Some ([101, 3, 5, 102], [1, 1, 1, 1])]"
proof -
  let ?texts = "[''cow'', ''the quick brown fox jumps over'']"
  have sp: "str_split ''cow'' = [''cow'']"
    "str_split ''the quick brown fox jumps over'' =
       [''the'', ''quick'', ''brown'', ''fox'', ''jumps'', ''over'']"
    by (simp_all add: str_split_def isspace_def)
  have gl: "glove_embs_of Map.empty 2 ?texts = Inr [[0, 0], [0, 0]]"
    by (simp add: text_to_avg_glove_def sp np_zeros_def numeral_2_eq_2)
  have sub: "subword_ids word_length_tokenizer (?texts ! 0) = [3]"
    "subword_ids word_length_tokenizer (?texts ! 1) = [3, 5, 5, 3, 5, 4]"
    by (simp_all add: word_length_tokenizer_def sp)
  have ids: "cls_id word_length_tokenizer = 101" "sep_id word_length_tokenizer = 102"
    "pad_id word_length_tokenizer = 0"
    by (simp_all add: word_length_tokenizer_def)
  have r: "replicate 4 (1 :: nat) = [1, 1, 1, 1]" "replicate 3 (1 :: nat) = [1, 1, 1]"
    by (simp_all add: numeral_eq_Suc)
  obtain ds x0 x1 where ds: "BertGloveDataset ?texts None Map.empty word_length_tokenizer 4 2 = Inr ds"
    and x0: "getitem ds 0 = Inr x0" "input_ids x0 = [101, 3, 102, 0]"
      "attention_mask x0 = [1, 1, 1, 0]"
    and x1: "getitem ds 1 = Inr x1" "input_ids x1 = [101, 3, 5, 102]"
      "attention_mask x1 = [1, 1, 1, 1]"
    using encoded_example_fixed_length[of 4 Map.empty 2 ?texts "[[0, 0], [0, 0]]" 0 None
        word_length_tokenizer, OF _ gl]
      encoded_example_fixed_length[of 4 Map.empty 2 ?texts "[[0, 0], [0, 0]]" 1 None
        word_length_tokenizer, OF _ gl]
    unfolding sub ids Let_def by (auto simp: r)
  then show ?thesis by simp
qed

text \<open>
  With \<open>max_length = 1\<close> there is no room for the two special tokens: the example of the
  one-word text has ids and mask of length 3, not 1.
\<close>

theorem encoded_example_max_length_one_counterexample:
  "(case BertGloveDataset [''cow''] None Map.empty word_length_tokenizer 1 2 of
      Inl e \<Rightarrow> None
    | Inr ds \<Rightarrow>
        (case getitem ds 0 of
           Inl e \<Rightarrow> None
         | Inr x \<Rightarrow> Some (input_ids x, attention_mask x)))
   = Some ([101, 3, 102], [1, 1, 1])"
  by (simp add: BertGloveDataset_def tokenizer_call_def text_to_avg_glove_def str_split_def
      isspace_def np_zeros_def encode_text_def word_length_tokenizer_def getitem_def index_def)

text \<open>
  C8, as the code has it. The constructor stores the label sequence without looking at
  its length: building the dataset succeeds or fails exactly as it does without labels.
  Without labels no example has a label field. With labels, the example at an index
  below both lengths carries the label at that index, fetching an example at an index
  that the label sequence does not reach fails with IndexError, and labels beyond the
  number of texts are never read.
\<close>

theorem dataset_labels_length_unchecked:
  "BertGloveDataset texts lbls glove_dict tk max_length glove_dim =
     (case BertGloveDataset texts None glove_dict tk max_length glove_dim of
        Inl e \<Rightarrow> Inl e
      | Inr ds \<Rightarrow> Inr (ds\<lparr>ds_labels := lbls\<rparr>)) \<and>
   (BertGloveDataset texts lbls glove_dict tk max_length glove_dim = Inr ds \<longrightarrow>
      (lbls = None \<and> idx < length texts \<longrightarrow>
         (\<exists>x. getitem ds idx = Inr x \<and> labels x = None)) \<and>
      (lbls = Some ls \<and> idx < length texts \<and> idx < length ls \<longrightarrow>
         (\<exists>x. getitem ds idx = Inr x \<and> labels x = Some (ls ! idx))) \<and>
      (lbls = Some ls \<and> length ls \<le> idx \<longrightarrow> getitem ds idx = Inl IndexError) \<and>
      (length texts \<le> idx \<longrightarrow> getitem ds idx = Inl IndexError))"
proof (intro conjI impI)
  show "BertGloveDataset texts lbls glove_dict tk max_length glove_dim =
     (case BertGloveDataset texts None glove_dict tk max_length glove_dim of
        Inl e \<Rightarrow> Inl e
      | Inr ds \<Rightarrow> Inr (ds\<lparr>ds_labels := lbls\<rparr>))"
    by (rule BertGloveDataset_labels_irrelevant)
next
  assume ds: "BertGloveDataset texts lbls glove_dict tk max_length glove_dim = Inr ds"
    and h: "lbls = None \<and> idx < length texts"
  then obtain x where x: "getitem ds idx = Inr x"
    using getitem_succeeds[OF ds, of idx] by auto
  with getitem_Inr(5)[OF ds x] h show "\<exists>x. getitem ds idx = Inr x \<and> labels x = None" by simp
next
  assume ds: "BertGloveDataset texts lbls glove_dict tk max_length glove_dim = Inr ds"
    and h: "lbls = Some ls \<and> idx < length texts \<and> idx < length ls"
  then obtain x where x: "getitem ds idx = Inr x"
    using getitem_succeeds[OF ds, of idx] by auto
  with getitem_Inr(5)[OF ds x] h
  show "\<exists>x. getitem ds idx = Inr x \<and> labels x = Some (ls ! idx)" by simp
next
  assume ds: "BertGloveDataset texts lbls glove_dict tk max_length glove_dim = Inr ds"
    and h: "lbls = Some ls \<and> length ls \<le> idx"
  then show "getitem ds idx = Inl IndexError"
    using getitem_fails[OF ds, of idx] by simp
next
  assume ds: "BertGloveDataset texts lbls glove_dict tk max_length glove_dim = Inr ds"
    and h: "length texts \<le> idx"
  then show "getitem ds idx = Inl IndexError"
    using getitem_fails[OF ds, of idx] by simp
qed

theorem dataset_labels_length_unchecked_witness:
  "case BertGloveDataset [''cow'', ''gene''] (Some [1]) Map.empty word_length_tokenizer 4 2 of
     Inl e \<Rightarrow> False
   | Inr ds \<Rightarrow>
       (case getitem ds 0 of Inl e \<Rightarrow> False | Inr x \<Rightarrow> labels x = Some 1) \<and>
       getitem ds 1 = Inl IndexError"
proof -
  have sp: "str_split ''cow'' = [''cow'']" "str_split ''gene'' = [''gene'']"
    by (simp_all add: str_split_def isspace_def)
  obtain ds where
    ds: "BertGloveDataset [''cow'', ''gene''] (Some [1]) Map.empty word_length_tokenizer 4 2 = Inr ds"
    by (simp add: BertGloveDataset_def tokenizer_call_def text_to_avg_glove_def sp
        length_encode_text)
  have "\<exists>x. getitem ds 0 = Inr x \<and> labels x = Some ([1] ! 0)"
    using dataset_labels_length_unchecked[of "[''cow'', ''gene'']" "Some [1]" Map.empty
        word_length_tokenizer 4 2 ds 0 "[1]", THEN conjunct2] ds
    by simp
  moreover have "getitem ds 1 = Inl IndexError"
    using dataset_labels_length_unchecked[of "[''cow'', ''gene'']" "Some [1]" Map.empty
        word_length_tokenizer 4 2 ds 1 "[1]", THEN conjunct2] ds
    by simp
  ultimately show ?thesis using ds by auto
qed

text \<open>
  One text and two labels: the dataset is built, with both labels stored.
\<close>

theorem dataset_length_mismatch_counterexample:
  "BertGloveDataset [''cow''] (Some [0, 1]) Map.empty word_length_tokenizer 4 2 =
     Inr \<lparr>ds_texts = [''cow''], ds_labels = Some [0, 1], ds_glove_dim = 2,
          ds_glove_embs = [[0, 0]],
          ds_encodings = \<lparr>enc_input_ids = [[101, 3, 102, 0]],
                          enc_attention_mask = [[1, 1, 1, 0]]\<rparr>\<rparr>"
  by (simp add: BertGloveDataset_def tokenizer_call_def text_to_avg_glove_def str_split_def
      isspace_def np_zeros_def encode_text_def word_length_tokenizer_def numeral_2_eq_2)

subsection \<open>Batch collation\<close>

lemma torch_stack_Inr:
  "list_all (\<lambda>u. length u = length t) rest \<Longrightarrow> torch_stack (t # rest) = Inr (t # rest)"
  by (simp add: torch_stack_def)

lemma labels_of_all:
  "\<forall>x\<in>set items. labels x \<noteq> None \<Longrightarrow> labels_of items = Inr (map (the \<circ> labels) items)"
  by (induction items) auto

lemma labels_of_missing:
  "\<exists>x\<in>set items. labels x = None \<Longrightarrow> labels_of items = Inl KeyError"
  by (induction items) (fastforce split: option.splits sum.splits)+

lemma collate_fn_stacks:
  assumes "list_all (same_shape first) rest"
  shows "torch_stack (map input_ids (first # rest)) = Inr (map input_ids (first # rest))"
    "torch_stack (map attention_mask (first # rest)) = Inr (map attention_mask (first # rest))"
    "torch_stack (map glove_emb (first # rest)) = Inr (map glove_emb (first # rest))"
  using assms by (simp_all add: torch_stack_def list_all_iff same_shape_def)

text \<open>
  C6, as the code has it. For a non-empty batch of examples of the same tensor sizes,
  \<open>collate_fn\<close> decides the labels by the first example alone. When the first example
  has no label, the labels of the batch are \<open>None\<close> and the call does not fail, whatever
  the other examples carry. When the first example has a label, the labels of all
  examples are stacked in the order of the batch, and the call fails with KeyError if
  some later example has none. So a batch without any label has labels \<open>None\<close>, and a
  batch in which every example has a label contains the stacked labels.
\<close>

theorem collate_fn_first_example_decides:
  assumes "list_all (same_shape first) rest"
  shows "(labels first = None \<longrightarrow>
      collate_fn (first # rest) =
        Inr \<lparr>batch_input_ids = map input_ids (first # rest),
             batch_attention_mask = map attention_mask (first # rest),
             batch_glove_emb = map glove_emb (first # rest), batch_labels = None\<rparr>) \<and>
   (labels first \<noteq> None \<and> (\<forall>x\<in>set rest. labels x \<noteq> None) \<longrightarrow>
      collate_fn (first # rest) =
        Inr \<lparr>batch_input_ids = map input_ids (first # rest),
             batch_attention_mask = map attention_mask (first # rest),
             batch_glove_emb = map glove_emb (first # rest),
             batch_labels = Some (map (the \<circ> labels) (first # rest))\<rparr>) \<and>
   (labels first \<noteq> None \<and> (\<exists>x\<in>set rest. labels x = None) \<longrightarrow>
      collate_fn (first # rest) = Inl KeyError)"
proof (intro conjI impI)
  note st = collate_fn_stacks[OF assms]
  {
    assume "labels first = None"
    then show "collate_fn (first # rest) =
        Inr \<lparr>batch_input_ids = map input_ids (first # rest),
             batch_attention_mask = map attention_mask (first # rest),
             batch_glove_emb = map glove_emb (first # rest), batch_labels = None\<rparr>"
      unfolding collate_fn_def st by simp
  next
    assume h: "labels first \<noteq> None \<and> (\<forall>x\<in>set rest. labels x \<noteq> None)"
    then have "labels_of (first # rest) = Inr (map (the \<circ> labels) (first # rest))"
      by (intro labels_of_all) simp
    with h show "collate_fn (first # rest) =
        Inr \<lparr>batch_input_ids = map input_ids (first # rest),
             batch_attention_mask = map attention_mask (first # rest),
             batch_glove_emb = map glove_emb (first # rest),
             batch_labels = Some (map (the \<circ> labels) (first # rest))\<rparr>"
      unfolding collate_fn_def st by (auto simp del: labels_of.simps)
  next
    assume h: "labels first \<noteq> None \<and> (\<exists>x\<in>set rest. labels x = None)"
    then have "labels_of (first # rest) = Inl KeyError"
      by (intro labels_of_missing) simp
    with h show "collate_fn (first # rest) = Inl KeyError"
      unfolding collate_fn_def st by (auto simp del: labels_of.simps)
  }
qed

theorem collate_fn_first_example_decides_witness:
  "collate_fn [\<lparr>input_ids = [101, 102], attention_mask = [1, 1], glove_emb = [0], labels = Some 1\<rparr>,
               \<lparr>input_ids = [101, 102], attention_mask = [1, 1], glove_emb = [2], labels = Some 0\<rparr>]
     = Inr \<lparr>batch_input_ids = [[101, 102], [101, 102]], batch_attention_mask = [[1, 1], [1, 1]],
            batch_glove_emb = [[0], [2]], batch_labels = Some [1, 0]\<rparr> \<and>
   collate_fn [\<lparr>input_ids = [101, 102], attention_mask = [1, 1], glove_emb = [0], labels = Some 1\<rparr>,
               \<lparr>input_ids = [101, 102], attention_mask = [1, 1], glove_emb = [2], labels = None\<rparr>]
     = Inl KeyError"
proof -
  let ?a = "\<lparr>input_ids = [101, 102], attention_mask = [1, 1], glove_emb = [0 :: real],
            labels = Some (1 :: nat)\<rparr>"
  let ?b = "\<lparr>input_ids = [101, 102], attention_mask = [1, 1], glove_emb = [2 :: real],
            labels = Some (0 :: nat)\<rparr>"
  let ?c = "\<lparr>input_ids = [101, 102], attention_mask = [1, 1], glove_emb = [2 :: real],
            labels = (None :: nat option)\<rparr>"
  have sh: "list_all (same_shape ?a) [?b]" "list_all (same_shape ?a) [?c]"
    by (simp_all add: same_shape_def)
  have "collate_fn [?a, ?b] =
      Inr \<lparr>batch_input_ids = [[101, 102], [101, 102]], batch_attention_mask = [[1, 1], [1, 1]],
           batch_glove_emb = [[0], [2]], batch_labels = Some [1, 0]\<rparr>"
    using collate_fn_first_example_decides[OF sh(1), THEN conjunct2, THEN conjunct1] by simp
  moreover have "collate_fn [?a, ?c] = Inl KeyError"
    using collate_fn_first_example_decides[OF sh(2), THEN conjunct2, THEN conjunct2] by simp
  ultimately show ?thesis by blast
qed

text \<open>
  A batch whose first example has no label and whose second has one: the call returns,
  with the labels \<open>None\<close>.
\<close>

theorem collate_fn_mixed_batch_counterexample:
  "collate_fn [\<lparr>input_ids = [101, 102], attention_mask = [1, 1], glove_emb = [0], labels = None\<rparr>,
               \<lparr>input_ids = [101, 102], attention_mask = [1, 1], glove_emb = [2], labels = Some 1\<rparr>]
     = Inr \<lparr>batch_input_ids = [[101, 102], [101, 102]], batch_attention_mask = [[1, 1], [1, 1]],
            batch_glove_emb = [[0], [2]], batch_labels = None\<rparr>"
  by (simp add: collate_fn_def torch_stack_def)

subsection \<open>The forward pass\<close>

lemma length_nn_Dropout: "length (nn_Dropout m x) = length x"
  by (simp add: nn_Dropout_def)

lemma nn_Dropout_rows:
  "list_all (\<lambda>r. length r = h) x \<Longrightarrow> list_all (\<lambda>r. length r = h) (nn_Dropout m x)"
  by (auto simp: nn_Dropout_def list_all_iff in_set_enumerate_eq)

lemma nn_Linear_shape:
  "in_features (nn_Linear n_in n_out w b) = n_in"
  "out_features (nn_Linear n_in n_out w b) = n_out"
  "length (weight (nn_Linear n_in n_out w b)) = n_out"
  "length (bias (nn_Linear n_in n_out w b)) = n_out"
  by (simp_all add: nn_Linear_def)

lemma linear_forward_shape:
  "linear_forward (nn_Linear n_in n_out w b) x = Inr lg \<Longrightarrow>
   length lg = length x \<and> list_all (\<lambda>row. length row = n_out) lg"
  by (auto simp: linear_forward_def nn_Linear_def list_all_iff split: if_splits)

lemma linear_forward_ok:
  "list_all (\<lambda>r. length r = n_in) x \<Longrightarrow>
   \<exists>lg. linear_forward (nn_Linear n_in n_out w b) x = Inr lg"
  by (simp add: linear_forward_def nn_Linear_def)

lemma linear_forward_bad:
  "\<not> list_all (\<lambda>r. length r = n_in) x \<Longrightarrow>
   linear_forward (nn_Linear n_in n_out w b) x = Inl RuntimeError"
  by (simp add: linear_forward_def nn_Linear_def)

lemma torch_cat_rows:
  "length a = length b \<Longrightarrow> list_all (\<lambda>r. length r = h) a \<Longrightarrow> list_all (\<lambda>r. length r = d) b \<Longrightarrow>
   torch_cat a b = Inr (map2 (@) a b) \<and> list_all (\<lambda>r. length r = h + d) (map2 (@) a b)"
  by (auto simp: torch_cat_def list_all_iff dest!: set_zip_leftD set_zip_rightD
      elim!: in_set_zipE)

lemma forward_None:
  "forward m ids amask glove None =
     (case torch_cat (nn_Dropout m (bert m ids amask))
             (case glove of None \<Rightarrow> torch_zeros (length (nn_Dropout m (bert m ids amask))) 300
                          | Some g \<Rightarrow> g) of
        Inl e \<Rightarrow> Inl e
      | Inr combined \<Rightarrow>
          (case linear_forward (classifier m) combined of
             Inl e \<Rightarrow> Inl e
           | Inr lg \<Rightarrow> Inr \<lparr>loss = None, logits = lg\<rparr>))"
  by (simp add: forward_def Let_def split: sum.splits)

lemma forward_Some:
  "forward m ids amask glove (Some ys) =
     (case forward m ids amask glove None of
        Inl e \<Rightarrow> Inl e
      | Inr out \<Rightarrow>
          (case CrossEntropyLoss class_weights (logits out) ys of
             Inl e \<Rightarrow> Inl e
           | Inr l \<Rightarrow> Inr (out\<lparr>loss := Some l\<rparr>)))"
  by (simp add: forward_def Let_def split: sum.splits)

lemma forward_logits_independent:
  "forward m ids amask glove l1 = Inr o1 \<Longrightarrow> forward m ids amask glove l2 = Inr o2 \<Longrightarrow>
   logits o1 = logits o2"
  by (cases l1; cases l2) (auto simp: forward_Some split: sum.splits)

lemma forward_returns_logits:
  assumes "length (enc ids amask) = length g"
    and "list_all (\<lambda>r. length r = hidden_size config) (enc ids amask)"
    and "list_all (\<lambda>r. length r = glove_dim) g"
  shows "\<exists>lg. forward (BertWithGlove config glove_dim enc mode dmask w b) ids amask (Some g) None
             = Inr \<lparr>loss = None, logits = lg\<rparr> \<and>
           length lg = length g \<and> list_all (\<lambda>row. length row = num_labels config) lg"
proof -
  let ?m = "BertWithGlove config glove_dim enc mode dmask w b"
  have m: "bert ?m = enc"
    "classifier ?m = nn_Linear (hidden_size config + glove_dim) (num_labels config) w b"
    by (simp_all add: BertWithGlove_def Let_def)
  let ?p = "nn_Dropout ?m (enc ids amask)"
  have p: "length ?p = length g" "list_all (\<lambda>r. length r = hidden_size config) ?p"
    using assms(1,2) by (simp_all add: length_nn_Dropout nn_Dropout_rows)
  from torch_cat_rows[OF p assms(3)]
  have cat: "torch_cat ?p g = Inr (map2 (@) ?p g)"
    "list_all (\<lambda>r. length r = hidden_size config + glove_dim) (map2 (@) ?p g)"
    by simp_all
  obtain lg where lg: "linear_forward (classifier ?m) (map2 (@) ?p g) = Inr lg"
    unfolding m using linear_forward_ok[OF cat(2)] by blast
  have "length lg = length g" "list_all (\<lambda>row. length row = num_labels config) lg"
    using linear_forward_shape[OF lg[unfolded m]] p(1) by simp_all
  moreover have "forward ?m ids amask (Some g) None = Inr \<lparr>loss = None, logits = lg\<rparr>"
    unfolding forward_None using cat(1) lg by (simp add: m)
  ultimately show ?thesis by blast
qed

lemma forward_zero_fallback_mismatch:
  assumes "glove_dim \<noteq> 300" and "enc ids amask \<noteq> []"
    and "list_all (\<lambda>r. length r = hidden_size config) (enc ids amask)"
  shows "forward (BertWithGlove config glove_dim enc mode dmask w b) ids amask None lbls
           = Inl RuntimeError"
proof -
  let ?m = "BertWithGlove config glove_dim enc mode dmask w b"
  have m: "bert ?m = enc"
    "classifier ?m = nn_Linear (hidden_size config + glove_dim) (num_labels config) w b"
    by (simp_all add: BertWithGlove_def Let_def)
  let ?p = "nn_Dropout ?m (enc ids amask)"
  let ?z = "torch_zeros (length ?p) 300"
  have p: "length ?p = length ?z" "list_all (\<lambda>r. length r = hidden_size config) ?p"
    using assms(3) by (simp_all add: torch_zeros_def nn_Dropout_rows)
  have z: "list_all (\<lambda>r. length r = 300) ?z" by (simp add: torch_zeros_def list_all_iff)
  from torch_cat_rows[OF p z]
  have cat: "torch_cat ?p ?z = Inr (map2 (@) ?p ?z)"
    "list_all (\<lambda>r. length r = hidden_size config + 300) (map2 (@) ?p ?z)"
    by simp_all
  have "length (map2 (@) ?p ?z) = length (enc ids amask)"
    by (simp add: torch_zeros_def length_nn_Dropout)
  then have ne: "map2 (@) ?p ?z \<noteq> []"
    using assms(2) by (metis length_0_conv)
  then obtain r where "r \<in> set (map2 (@) ?p ?z)" by (cases "map2 (@) ?p ?z") auto
  with cat(2) assms(1) have "\<not> list_all (\<lambda>r. length r = hidden_size config + glove_dim) (map2 (@) ?p ?z)"
    by (auto simp: list_all_iff)
  then have "linear_forward (classifier ?m) (map2 (@) ?p ?z) = Inl RuntimeError"
    unfolding m by (rule linear_forward_bad)
  then have "forward ?m ids amask None None = Inl RuntimeError"
    unfolding forward_None using cat(1) by (simp add: m)
  then show ?thesis by (cases lbls) (simp_all add: forward_Some)
qed

text \<open>
  C1 fails on the code when the configured static dimension is not 300: the fallback
  for an absent \<open>glove_emb\<close> is a zero tensor of the constant width 300, while the
  linear layer expects \<open>hidden_size + glove_dim\<close> columns. A model with hidden size 2
  and \<open>glove_dim = 3\<close>: the forward call without \<open>glove_emb\<close> raises RuntimeError, and
  the same call with a zero vector of width 3 returns the logits.
\<close>

theorem forward_absent_glove_emb_not_configured_dim:
  "forward (BertWithGlove \<lparr>hidden_size = 2, num_labels = 2\<rparr> 3
              (\<lambda>ids amask. map (\<lambda>_. [1, 1]) ids) False (\<lambda>i j. 1) (\<lambda>i j. 1) (\<lambda>i. 0))
     [[101, 102]] [[1, 1]] None None = Inl RuntimeError \<and>
   forward (BertWithGlove \<lparr>hidden_size = 2, num_labels = 2\<rparr> 3
              (\<lambda>ids amask. map (\<lambda>_. [1, 1]) ids) False (\<lambda>i j. 1) (\<lambda>i j. 1) (\<lambda>i. 0))
     [[101, 102]] [[1, 1]] (Some [[0, 0, 0]]) None = Inr \<lparr>loss = None, logits = [[2, 2]]\<rparr>"
proof -
  have u: "[0..<5] = [0, 1, 2, 3, 4]" "[0..<2] = [0, 1]"
    by (simp_all add: upt_rec)
  show ?thesis
    by (simp add: forward_None BertWithGlove_def nn_Dropout_def torch_zeros_def torch_cat_def
        linear_forward_def nn_Linear_def dot_def u)
qed





subsection \<open>Labels and logits\<close>

lemma getitem_placeholder:
  assumes "BertGloveDataset texts None glove_dict tk max_length glove_dim = Inr ds"
  shows "getitem (ds\<lparr>ds_labels := Some (replicate (length texts) 0)\<rparr>) idx =
     (case getitem ds idx of Inl e \<Rightarrow> Inl e | Inr x \<Rightarrow> Inr (x\<lparr>labels := Some 0\<rparr>))"
    and "getitem ds idx = Inr x \<Longrightarrow> labels x = None"
  using BertGloveDataset_Inr[OF assms]
  by (auto simp: getitem_def index_def split: sum.splits)

lemma fetch_placeholder:
  assumes "BertGloveDataset texts None glove_dict tk max_length glove_dim = Inr ds"
  shows "fetch (ds\<lparr>ds_labels := Some (replicate (length texts) 0)\<rparr>) idxs =
     (case fetch ds idxs of Inl e \<Rightarrow> Inl e | Inr xs \<Rightarrow> Inr (map (\<lambda>x. x\<lparr>labels := Some 0\<rparr>) xs))"
  by (induction idxs) (simp_all add: getitem_placeholder(1)[OF assms] split: sum.splits)

lemma fetch_unlabeled:
  assumes "BertGloveDataset texts None glove_dict tk max_length glove_dim = Inr ds"
  shows "fetch ds idxs = Inr xs \<Longrightarrow> \<forall>x\<in>set xs. labels x = None"
  by (induction idxs arbitrary: xs)
    (auto simp: getitem_placeholder(2)[OF assms] split: sum.splits)

lemma labels_of_placeholder:
  "labels_of (map (\<lambda>x. x\<lparr>labels := Some 0\<rparr>) xs) = Inr (replicate (length xs) 0)"
  by (induction xs) simp_all

lemma collate_fn_placeholder:
  assumes "\<forall>x\<in>set xs. labels x = None"
  shows "collate_fn (map (\<lambda>x. x\<lparr>labels := Some 0\<rparr>) xs) =
     (case collate_fn xs of
        Inl e \<Rightarrow> Inl e
      | Inr b \<Rightarrow> Inr (b\<lparr>batch_labels := Some (replicate (length (batch_glove_emb b)) 0)\<rparr>))"
    and "collate_fn xs = Inr b \<Longrightarrow> batch_labels b = None"
proof -
  have st: "torch_stack ts = Inl RuntimeError \<or> torch_stack ts = Inr ts" for ts :: "'a list list"
    by (auto simp: torch_stack_def split: list.splits)
  show "collate_fn (map (\<lambda>x. x\<lparr>labels := Some 0\<rparr>) xs) =
     (case collate_fn xs of
        Inl e \<Rightarrow> Inl e
      | Inr b \<Rightarrow> Inr (b\<lparr>batch_labels := Some (replicate (length (batch_glove_emb b)) 0)\<rparr>))"
  proof (cases xs)
    case Nil
    then show ?thesis by (simp add: collate_fn_def torch_stack_def)
  next
    case (Cons a list)
    have "labels a = None" using assms Cons by simp
    moreover have "labels_of (map (\<lambda>x. x\<lparr>labels := Some 0\<rparr>) (a # list))
        = Inr (replicate (length (a # list)) 0)"
      by (rule labels_of_placeholder)
    ultimately show ?thesis
      unfolding Cons
      using st[of "map input_ids (a # list)"] st[of "map attention_mask (a # list)"]
        st[of "map glove_emb (a # list)"]
      by (auto simp: collate_fn_def comp_def simp del: labels_of.simps)
  qed
  show "collate_fn xs = Inr b \<Longrightarrow> batch_labels b = None"
    using assms by (cases xs) (auto simp: collate_fn_def split: sum.splits)
qed

lemma forward_None_length:
  assumes "forward m ids amask (Some g) None = Inr out"
  shows "length (logits out) = length g"
    and "list_all (\<lambda>row. length row = min (length (weight (classifier m))) (length (bias (classifier m))))
           (logits out)"
  using assms
  by (auto simp: forward_None torch_cat_def linear_forward_def list_all_iff
      split: sum.splits if_splits)

lemma forward_placeholder:
  assumes "length (weight (classifier m)) = 2" "length (bias (classifier m)) = 2"
  shows "\<exists>l. forward m ids amask (Some g) (Some (replicate (length g) 0)) =
     (case forward m ids amask (Some g) None of
        Inl e \<Rightarrow> Inl e
      | Inr out \<Rightarrow> Inr (out\<lparr>loss := Some l\<rparr>))"
proof (cases "forward m ids amask (Some g) None")
  case (Inl e)
  then show ?thesis by (simp add: forward_Some)
next
  case (Inr out)
  from forward_None_length[OF Inr] assms
  have "length (logits out) = length g" "list_all (\<lambda>row. length row = 2) (logits out)"
    by simp_all
  then have "\<exists>l. CrossEntropyLoss class_weights (logits out) (replicate (length g) 0) = Inr l"
    by (simp add: CrossEntropyLoss_def class_weights_def list_all_iff)
  then show ?thesis using Inr by (auto simp: forward_Some)
qed

lemma load_batch_placeholder:
  assumes ds: "BertGloveDataset texts None glove_dict tk max_length glove_dim = Inr ds"
  shows "load_batch (ds\<lparr>ds_labels := Some (replicate (length texts) 0)\<rparr>) idxs =
     (case load_batch ds idxs of
        Inl e \<Rightarrow> Inl e
      | Inr b \<Rightarrow> Inr (b\<lparr>batch_labels := Some (replicate (length (batch_glove_emb b)) 0)\<rparr>))"
    and "load_batch ds idxs = Inr b \<Longrightarrow> batch_labels b = None"
proof -
  show "load_batch (ds\<lparr>ds_labels := Some (replicate (length texts) 0)\<rparr>) idxs =
     (case load_batch ds idxs of
        Inl e \<Rightarrow> Inl e
      | Inr b \<Rightarrow> Inr (b\<lparr>batch_labels := Some (replicate (length (batch_glove_emb b)) 0)\<rparr>))"
  proof (cases "fetch ds idxs")
    case (Inl e)
    then show ?thesis by (simp add: load_batch_def fetch_placeholder[OF ds])
  next
    case xs: (Inr xs)
    have un: "\<forall>x\<in>set xs. labels x = None" using fetch_unlabeled[OF ds xs] .
    show ?thesis
      by (simp add: load_batch_def fetch_placeholder[OF ds] xs collate_fn_placeholder(1)[OF un])
  qed
  show "load_batch ds idxs = Inr b \<Longrightarrow> batch_labels b = None"
  proof (cases "fetch ds idxs")
    case (Inl e)
    assume "load_batch ds idxs = Inr b"
    with Inl show ?thesis by (simp add: load_batch_def)
  next
    case xs: (Inr xs)
    assume "load_batch ds idxs = Inr b"
    then have "collate_fn xs = Inr b" by (simp add: load_batch_def xs)
    then show ?thesis using collate_fn_placeholder(2)[OF fetch_unlabeled[OF ds xs]] by blast
  qed
qed

lemma prediction_step_unlabeled:
  "batch_labels b = None \<Longrightarrow> \<exists>e. prediction_step m b = Inl e"
  by (auto simp: prediction_step_def forward_None split: sum.splits)

lemma prediction_step_placeholder:
  assumes "length (weight (classifier m)) = 2" "length (bias (classifier m)) = 2"
  shows "prediction_step m (b\<lparr>batch_labels := Some (replicate (length (batch_glove_emb b)) 0)\<rparr>) =
     (case forward m (batch_input_ids b) (batch_attention_mask b) (Some (batch_glove_emb b)) None of
        Inl e \<Rightarrow> Inl e
      | Inr out \<Rightarrow> Inr (logits out))"
proof -
  obtain l where "forward m (batch_input_ids b) (batch_attention_mask b)
         (Some (batch_glove_emb b)) (Some (replicate (length (batch_glove_emb b)) 0)) =
       (case forward m (batch_input_ids b) (batch_attention_mask b) (Some (batch_glove_emb b)) None of
          Inl e \<Rightarrow> Inl e
        | Inr out \<Rightarrow> Inr (out\<lparr>loss := Some l\<rparr>))"
    using forward_placeholder[OF assms] by blast
  then show ?thesis
    by (cases "forward m (batch_input_ids b) (batch_attention_mask b)
                 (Some (batch_glove_emb b)) None")
      (simp_all add: prediction_step_def)
qed

text \<open>
  C10, as the code and the trainer have it. The logits of a forward call do not depend
  on the labels: two calls that differ in the labels only and both return have the same
  logits, and a call with labels that returns has the logits of the call without labels.
  For a classifier with two output classes, predicting on the test dataset built with
  the placeholder label 0 for every text gives, on every batch of indices, the logits,
  and so the thresholded labels, that the forward call returns for that batch without
  labels, and it fails exactly when loading the batch or that forward call fails. The
  prediction step needs the placeholder labels: on the dataset built without labels it
  returns no logits but fails.
\<close>

theorem logits_independent_of_labels:
  assumes "num_labels config = 2"
    and "BertGloveDataset texts None glove_dict tk max_length glove_dim = Inr unlabeled"
  shows "(forward m ids amask glove l1 = Inr o1 \<and> forward m ids amask glove l2 = Inr o2 \<longrightarrow>
            logits o1 = logits o2) \<and>
         (forward m ids amask glove l1 = Inr o1 \<longrightarrow>
            forward m ids amask glove None = Inr (o1\<lparr>loss := None\<rparr>)) \<and>
         (\<exists>labeled.
            BertGloveDataset texts (Some (replicate (length texts) 0)) glove_dict tk max_length
              glove_dim = Inr labeled \<and>
            predict_step (BertWithGlove config gd enc mode dmask w b) labeled idxs =
              (case load_batch unlabeled idxs of
                 Inl e \<Rightarrow> Inl e
               | Inr bt \<Rightarrow>
                   (case forward (BertWithGlove config gd enc mode dmask w b)
                           (batch_input_ids bt) (batch_attention_mask bt)
                           (Some (batch_glove_emb bt)) None of
                      Inl e \<Rightarrow> Inl e
                    | Inr out \<Rightarrow> Inr (logits out))) \<and>
            (case predict_step (BertWithGlove config gd enc mode dmask w b) labeled idxs of
               Inl e \<Rightarrow> Inl e
             | Inr test_logits \<Rightarrow> test_labels test_logits) =
              (case load_batch unlabeled idxs of
                 Inl e \<Rightarrow> Inl e
               | Inr bt \<Rightarrow>
                   (case forward (BertWithGlove config gd enc mode dmask w b)
                           (batch_input_ids bt) (batch_attention_mask bt)
                           (Some (batch_glove_emb bt)) None of
                      Inl e \<Rightarrow> Inl e
                    | Inr out \<Rightarrow> test_labels (logits out)))) \<and>
         (\<exists>e. predict_step (BertWithGlove config gd enc mode dmask w b) unlabeled idxs = Inl e)"
proof (intro conjI impI)
  assume "forward m ids amask glove l1 = Inr o1 \<and> forward m ids amask glove l2 = Inr o2"
  then show "logits o1 = logits o2" using forward_logits_independent by blast
next
  assume h: "forward m ids amask glove l1 = Inr o1"
  show "forward m ids amask glove None = Inr (o1\<lparr>loss := None\<rparr>)"
  proof (cases l1)
    case None
    with h show ?thesis by (auto simp: forward_None split: sum.splits)
  next
    case (Some ys)
    with h show ?thesis by (auto simp: forward_Some forward_None split: sum.splits)
  qed
next
  let ?m = "BertWithGlove config gd enc mode dmask w b"
  let ?labeled = "unlabeled\<lparr>ds_labels := Some (replicate (length texts) 0)\<rparr>"
  let ?fw = "\<lambda>bt. forward ?m (batch_input_ids bt) (batch_attention_mask bt)
                  (Some (batch_glove_emb bt)) None"
  have c: "BertGloveDataset texts (Some (replicate (length texts) 0)) glove_dict tk max_length
              glove_dim = Inr ?labeled"
    using BertGloveDataset_labels_irrelevant[of texts "Some (replicate (length texts) 0)"
        glove_dict tk max_length glove_dim] assms(2)
    by simp
  have w: "length (weight (classifier ?m)) = 2" "length (bias (classifier ?m)) = 2"
    using assms(1) by (simp_all add: BertWithGlove_def Let_def nn_Linear_def)
  have p: "predict_step ?m ?labeled idxs =
      (case load_batch unlabeled idxs of
         Inl e \<Rightarrow> Inl e
       | Inr bt \<Rightarrow> (case ?fw bt of Inl e \<Rightarrow> Inl e | Inr out \<Rightarrow> Inr (logits out)))"
    unfolding predict_step_def load_batch_placeholder(1)[OF assms(2)]
    by (cases "load_batch unlabeled idxs") (simp_all add: prediction_step_placeholder[OF w])
  have q: "(case predict_step ?m ?labeled idxs of
               Inl e \<Rightarrow> Inl e
             | Inr test_logits \<Rightarrow> test_labels test_logits) =
      (case load_batch unlabeled idxs of
         Inl e \<Rightarrow> Inl e
       | Inr bt \<Rightarrow> (case ?fw bt of Inl e \<Rightarrow> Inl e | Inr out \<Rightarrow> test_labels (logits out)))"
    unfolding p by (auto split: sum.splits)
  show "\<exists>labeled.
            BertGloveDataset texts (Some (replicate (length texts) 0)) glove_dict tk max_length
              glove_dim = Inr labeled \<and>
            predict_step ?m labeled idxs =
              (case load_batch unlabeled idxs of
                 Inl e \<Rightarrow> Inl e
               | Inr bt \<Rightarrow> (case ?fw bt of Inl e \<Rightarrow> Inl e | Inr out \<Rightarrow> Inr (logits out))) \<and>
            (case predict_step ?m labeled idxs of
               Inl e \<Rightarrow> Inl e
             | Inr test_logits \<Rightarrow> test_labels test_logits) =
              (case load_batch unlabeled idxs of
                 Inl e \<Rightarrow> Inl e
               | Inr bt \<Rightarrow>
                   (case ?fw bt of Inl e \<Rightarrow> Inl e | Inr out \<Rightarrow> test_labels (logits out)))"
    using c p q by blast
  show "\<exists>e. predict_step ?m unlabeled idxs = Inl e"
  proof (cases "load_batch unlabeled idxs")
    case (Inl e)
    then show ?thesis by (simp add: predict_step_def)
  next
    case (Inr bt)
    then show ?thesis
      using prediction_step_unlabeled[OF load_batch_placeholder(2)[OF assms(2) Inr], of ?m]
      by (simp add: predict_step_def)
  qed
qed

theorem logits_independent_of_labels_witness:
  "\<exists>labeled.
     BertGloveDataset [''cow''] (Some [0]) Map.empty word_length_tokenizer 4 3 = Inr labeled \<and>
     predict_step
       (BertWithGlove \<lparr>hidden_size = 2, num_labels = 2\<rparr> 3
          (\<lambda>ids amask. map (\<lambda>_. [1, 1]) ids) False (\<lambda>i j. 1) (\<lambda>i j. 1) (\<lambda>i. 0))
       labeled [0] = Inr [[2, 2]]"
proof -
  let ?m = "BertWithGlove \<lparr>hidden_size = 2, num_labels = 2\<rparr> 3
              (\<lambda>ids amask. map (\<lambda>_. [1, 1]) ids) False (\<lambda>i j. 1) (\<lambda>i j. 1) (\<lambda>i. 0)"
  let ?ds = "\<lparr>ds_texts = [''cow''], ds_labels = None, ds_glove_dim = 3,
              ds_glove_embs = [[0, 0, 0]],
              ds_encodings = \<lparr>enc_input_ids = [[101, 3, 102, 0]],
                              enc_attention_mask = [[1, 1, 1, 0]]\<rparr>\<rparr>"
  let ?bt = "\<lparr>batch_input_ids = [[101, 3, 102, 0]], batch_attention_mask = [[1, 1, 1, 0]],
              batch_glove_emb = [[0, 0, 0]], batch_labels = None\<rparr>"
  have nl: "num_labels \<lparr>hidden_size = 2, num_labels = 2\<rparr> = 2" by simp
  have ds: "BertGloveDataset [''cow''] None Map.empty word_length_tokenizer 4 3 = Inr ?ds"
    by (simp add: BertGloveDataset_def tokenizer_call_def text_to_avg_glove_def str_split_def
        isspace_def np_zeros_def encode_text_def word_length_tokenizer_def numeral_3_eq_3)
  have u: "[0..<5] = [0, 1, 2, 3, 4]" "[0..<2] = [0, 1]"
    by (simp_all add: upt_rec)
  have lb: "load_batch ?ds [0] = Inr ?bt"
    by (simp add: load_batch_def getitem_def index_def collate_fn_def torch_stack_def)
  have fw: "forward ?m (batch_input_ids ?bt) (batch_attention_mask ?bt)
              (Some (batch_glove_emb ?bt)) None
      = Inr \<lparr>loss = None, logits = [[2, 2]]\<rparr>"
    by (simp add: forward_None BertWithGlove_def nn_Dropout_def torch_cat_def
        linear_forward_def nn_Linear_def dot_def u)
  have r: "replicate (length [''cow'']) (0 :: nat) = [0]" by simp
  from logits_independent_of_labels[OF nl ds, where gd = 3
      and enc = "\<lambda>ids amask. map (\<lambda>_. [1, 1]) ids" and mode = False and dmask = "\<lambda>i j. 1"
      and w = "\<lambda>i j. 1" and b = "\<lambda>i. 0" and idxs = "[0]",
      THEN conjunct2, THEN conjunct2, THEN conjunct1]
  show ?thesis unfolding r lb sum.case fw by auto
qed

text \<open>
  The one-text dataset built without labels and built with the placeholder label: the
  prediction step on the first fails with TypeError, on the second it returns the logits.
\<close>

theorem predict_without_labels_counterexample:
  "predict_step
     (BertWithGlove \<lparr>hidden_size = 2, num_labels = 2\<rparr> 3
        (\<lambda>ids amask. map (\<lambda>_. [1, 1]) ids) False (\<lambda>i j. 1) (\<lambda>i j. 1) (\<lambda>i. 0))
     \<lparr>ds_texts = [''cow''], ds_labels = None, ds_glove_dim = 3, ds_glove_embs = [[0, 0, 0]],
      ds_encodings = \<lparr>enc_input_ids = [[101, 3, 102, 0]],
                      enc_attention_mask = [[1, 1, 1, 0]]\<rparr>\<rparr> [0] = Inl TypeError \<and>
   predict_step
     (BertWithGlove \<lparr>hidden_size = 2, num_labels = 2\<rparr> 3
        (\<lambda>ids amask. map (\<lambda>_. [1, 1]) ids) False (\<lambda>i j. 1) (\<lambda>i j. 1) (\<lambda>i. 0))
     \<lparr>ds_texts = [''cow''], ds_labels = Some [0], ds_glove_dim = 3, ds_glove_embs = [[0, 0, 0]],
      ds_encodings = \<lparr>enc_input_ids = [[101, 3, 102, 0]],
                      enc_attention_mask = [[1, 1, 1, 0]]\<rparr>\<rparr> [0] = Inr [[2, 2]] \<and>
   BertGloveDataset [''cow''] None Map.empty word_length_tokenizer 4 3 =
     Inr \<lparr>ds_texts = [''cow''], ds_labels = None, ds_glove_dim = 3, ds_glove_embs = [[0, 0, 0]],
          ds_encodings = \<lparr>enc_input_ids = [[101, 3, 102, 0]],
                          enc_attention_mask = [[1, 1, 1, 0]]\<rparr>\<rparr> \<and>
   BertGloveDataset [''cow''] (Some [0]) Map.empty word_length_tokenizer 4 3 =
     Inr \<lparr>ds_texts = [''cow''], ds_labels = Some [0], ds_glove_dim = 3,
          ds_glove_embs = [[0, 0, 0]],
          ds_encodings = \<lparr>enc_input_ids = [[101, 3, 102, 0]],
                          enc_attention_mask = [[1, 1, 1, 0]]\<rparr>\<rparr>"
proof -
  let ?m = "BertWithGlove \<lparr>hidden_size = 2, num_labels = 2\<rparr> 3
              (\<lambda>ids amask. map (\<lambda>_. [1, 1]) ids) False (\<lambda>i j. 1) (\<lambda>i j. 1) (\<lambda>i. 0)"
  have u: "[0..<5] = [0, 1, 2, 3, 4]" "[0..<2] = [0, 1]"
    by (simp_all add: upt_rec)
  have fw: "forward ?m [[101, 3, 102, 0]] [[1, 1, 1, 0]] (Some [[0, 0, 0]]) None
      = Inr \<lparr>loss = None, logits = [[2, 2]]\<rparr>"
    by (simp add: forward_None BertWithGlove_def nn_Dropout_def torch_cat_def
        linear_forward_def nn_Linear_def dot_def u)
  have ce: "CrossEntropyLoss class_weights [[2, 2]] [0] = Inr (Scalar (- log_softmax [2, 2] 0))"
    by (simp add: CrossEntropyLoss_def class_weights_def)
  have fl: "forward ?m [[101, 3, 102, 0]] [[1, 1, 1, 0]] (Some [[0, 0, 0]]) (Some [0])
      = Inr \<lparr>loss = Some (Scalar (- log_softmax [2, 2] 0)), logits = [[2, 2]]\<rparr>"
    unfolding forward_Some fw by (simp add: ce)
  have a: "predict_step ?m
     \<lparr>ds_texts = [''cow''], ds_labels = None, ds_glove_dim = 3, ds_glove_embs = [[0, 0, 0]],
      ds_encodings = \<lparr>enc_input_ids = [[101, 3, 102, 0]],
                      enc_attention_mask = [[1, 1, 1, 0]]\<rparr>\<rparr> [0] = Inl TypeError"
    by (simp add: predict_step_def load_batch_def prediction_step_def getitem_def index_def
        collate_fn_def torch_stack_def fw[unfolded One_nat_def])
  have b: "predict_step ?m
     \<lparr>ds_texts = [''cow''], ds_labels = Some [0], ds_glove_dim = 3, ds_glove_embs = [[0, 0, 0]],
      ds_encodings = \<lparr>enc_input_ids = [[101, 3, 102, 0]],
                      enc_attention_mask = [[1, 1, 1, 0]]\<rparr>\<rparr> [0] = Inr [[2, 2]]"
    by (simp add: predict_step_def load_batch_def prediction_step_def getitem_def index_def
        collate_fn_def torch_stack_def fl[unfolded One_nat_def])
  have c: "BertGloveDataset [''cow''] None Map.empty word_length_tokenizer 4 3 =
     Inr \<lparr>ds_texts = [''cow''], ds_labels = None, ds_glove_dim = 3, ds_glove_embs = [[0, 0, 0]],
          ds_encodings = \<lparr>enc_input_ids = [[101, 3, 102, 0]],
                          enc_attention_mask = [[1, 1, 1, 0]]\<rparr>\<rparr>"
    "BertGloveDataset [''cow''] (Some [0]) Map.empty word_length_tokenizer 4 3 =
     Inr \<lparr>ds_texts = [''cow''], ds_labels = Some [0], ds_glove_dim = 3,
          ds_glove_embs = [[0, 0, 0]],
          ds_encodings = \<lparr>enc_input_ids = [[101, 3, 102, 0]],
                          enc_attention_mask = [[1, 1, 1, 0]]\<rparr>\<rparr>"
    by (simp_all add: BertGloveDataset_def tokenizer_call_def text_to_avg_glove_def
        str_split_def isspace_def np_zeros_def encode_text_def word_length_tokenizer_def
        numeral_3_eq_3)
  show ?thesis using a b c by blast
qed

end
